theory Spec2Isabelle
  imports Complex_Main "HOL-Library.Multiset"
begin

section \<open>Angle-based outlier detection (pyod/models/abod.py)\<close>

text \<open>
  A shallow embedding of \<^verbatim>\<open>_wcos\<close>, \<^verbatim>\<open>_calculate_wocs\<close> and the class \<^verbatim>\<open>ABOD\<close>.

  Numbers: a float64 is modelled by an exact real. The only non-number that arises in this
  model is numpy's nan, produced by the variance of an empty list; it is a constructor of its
  own. Rounding and overflow of float64 are not modelled; underflow is modelled where it
  decides whether a division fails, in a second version of the primitive.

  Arrays: a one-dimensional array is a list of reals, a two-dimensional array a list of
  rows. Indices into the training set are natural numbers (the index lists come from
  \<^verbatim>\<open>range\<close> and from the neighbour queries, which return positions).
\<close>

subsection \<open>Values and errors\<close>

datatype npfloat = Num real | NaN

type_synonym point = "real list"
type_synonym matrix = "real list list"

text \<open>
  Every exception of the source is a value. Python raises \<^verbatim>\<open>ValueError\<close> for four different
  reasons here; the constructor records which one.
\<close>

datatype error =
    InvalidArray        \<comment> \<open>\<^verbatim>\<open>ValueError\<close> of \<^verbatim>\<open>check_array\<close>\<close>
  | ParameterRange      \<comment> \<open>\<^verbatim>\<open>ValueError\<close> of \<^verbatim>\<open>check_parameter\<close>\<close>
  | InvalidMethod       \<comment> \<open>\<^verbatim>\<open>ValueError(self.method, "is not a valid method")\<close>\<close>
  | ShapeMismatch       \<comment> \<open>\<^verbatim>\<open>ValueError\<close>: operands cannot be broadcast or aligned\<close>
  | ZeroDivisionError   \<comment> \<open>float division by zero inside the \<^verbatim>\<open>@njit\<close> function\<close>
  | IndexError          \<comment> \<open>row index out of bounds\<close>
  | AttributeError      \<comment> \<open>an attribute of the detector is read before it was set\<close>
  | NotFittedError      \<comment> \<open>\<^verbatim>\<open>check_is_fitted\<close>\<close>
  | IndexQueryError     \<comment> \<open>anything raised by the neighbour index of scikit-learn\<close>

subsection \<open>Array primitives of numpy\<close>

text \<open>
  \<^verbatim>\<open>a - curr_pt\<close> on one-dimensional arrays: elementwise when the lengths agree, a
  length-one operand is broadcast, anything else raises.
\<close>

definition vsub :: "point \<Rightarrow> point \<Rightarrow> error + point" where
  "vsub a p =
     (if length a = length p then Inr (map2 (-) a p)
      else if length p = 1 then Inr (map (\<lambda>x. x - hd p) a)
      else if length a = 1 then Inr (map (\<lambda>y. hd a - y) p)
      else Inl ShapeMismatch)"

text \<open>\<^verbatim>\<open>np.dot\<close> on one-dimensional arrays: the sizes must agree.\<close>

definition dotp :: "point \<Rightarrow> point \<Rightarrow> real" where
  "dotp u v = sum_list (map2 (*) u v)"

definition dot :: "point \<Rightarrow> point \<Rightarrow> error + real" where
  "dot u v = (if length u = length v then Inr (dotp u v) else Inl ShapeMismatch)"

text \<open>\<^verbatim>\<open>np.linalg.norm(x, 2)\<close> on a one-dimensional array.\<close>

definition norm2 :: "point \<Rightarrow> real" where
  "norm2 u = sqrt (sum_list (map (\<lambda>x. \<bar>x\<bar> ^ 2) u))"

text \<open>
  Float division in a function compiled by \<^verbatim>\<open>@njit\<close> with numba's default error model
  (\<^verbatim>\<open>error_model='python'\<close>): a zero divisor raises.
\<close>

definition fdiv :: "real \<Rightarrow> real \<Rightarrow> error + real" where
  "fdiv x y = (if y = 0 then Inl ZeroDivisionError else Inr (x / y))"

text \<open>\<^verbatim>\<open>X[i, :]\<close>.\<close>

definition row :: "'a list \<Rightarrow> nat \<Rightarrow> error + 'a" where
  "row X i = (if i < length X then Inr (X ! i) else Inl IndexError)"

text \<open>
  \<^verbatim>\<open>np.var\<close> of a list: the mean of the squared absolute deviations from the mean; of an empty
  list it is nan (numpy warns and does not raise).
\<close>

definition mean :: "real list \<Rightarrow> real" where
  "mean xs = sum_list xs / real (length xs)"

definition np_var :: "real list \<Rightarrow> npfloat" where
  "np_var xs = (if xs = [] then NaN else Num (mean (map (\<lambda>x. \<bar>x - mean xs\<bar> ^ 2) xs)))"

text \<open>\<^verbatim>\<open>x * -1\<close> on a float64: nan stays nan.\<close>

fun flip :: "npfloat \<Rightarrow> npfloat" where
  "flip (Num r) = Num (r * - 1)"
| "flip NaN = NaN"

text \<open>\<^verbatim>\<open>list(combinations(X_ind, 2))\<close>: the pairs of positions \<open>i < j\<close>, in lexicographic order.\<close>

fun combinations2 :: "'a list \<Rightarrow> ('a \<times> 'a) list" where
  "combinations2 [] = []"
| "combinations2 (x # xs) = map (Pair x) xs @ combinations2 xs"

subsection \<open>The weighted cosine\<close>

definition wcos :: "point \<Rightarrow> point \<Rightarrow> point \<Rightarrow> error + real" where
  "wcos curr_pt a b =
     (case vsub a curr_pt of Inl e \<Rightarrow> Inl e | Inr a_curr \<Rightarrow>
     (case vsub b curr_pt of Inl e \<Rightarrow> Inl e | Inr b_curr \<Rightarrow>
     (case dot a_curr b_curr of Inl e \<Rightarrow> Inl e | Inr d \<Rightarrow>
     (case fdiv d (norm2 a_curr ^ 2) of Inl e \<Rightarrow> Inl e | Inr q \<Rightarrow>
        fdiv q (norm2 b_curr ^ 2)))))"

subsection \<open>The variance of the weighted cosines of a point\<close>

text \<open>
  The loop of \<^verbatim>\<open>_calculate_wocs\<close> over the index pairs; \<open>wcos_list\<close> is the list being
  appended to. \<^verbatim>\<open>np.array_equal\<close> is equality of lists: arrays of different shapes are not
  equal.
\<close>

fun wocs_loop :: "point \<Rightarrow> matrix \<Rightarrow> (nat \<times> nat) list \<Rightarrow> real list \<Rightarrow> error + real list" where
  "wocs_loop curr_pt X [] wcos_list = Inr wcos_list"
| "wocs_loop curr_pt X ((a_ind, b_ind) # rest) wcos_list =
     (case row X a_ind of Inl e \<Rightarrow> Inl e | Inr a \<Rightarrow>
     (case row X b_ind of Inl e \<Rightarrow> Inl e | Inr b \<Rightarrow>
        (if a = curr_pt \<or> b = curr_pt then wocs_loop curr_pt X rest wcos_list
         else (case wcos curr_pt a b of Inl e \<Rightarrow> Inl e
               | Inr w \<Rightarrow> wocs_loop curr_pt X rest (wcos_list @ [w])))))"

definition calculate_wocs :: "point \<Rightarrow> matrix \<Rightarrow> nat list \<Rightarrow> error + npfloat" where
  "calculate_wocs curr_pt X X_ind =
     (case wocs_loop curr_pt X (combinations2 X_ind) [] of
        Inl e \<Rightarrow> Inl e
      | Inr wcos_list \<Rightarrow> Inr (np_var wcos_list))"

subsection \<open>The divisions under float64 underflow\<close>






subsection \<open>Collaborators outside the file\<close>

text \<open>
  \<^verbatim>\<open>check_array\<close> of scikit-learn accepts a two-dimensional array of finite numbers with at
  least one row and one column. A list of rows is such an array when it is not empty and its
  rows share one positive length; reals are finite.
\<close>

definition check_array :: "matrix \<Rightarrow> error + matrix" where
  "check_array X =
     (if X \<noteq> [] \<and> hd X \<noteq> [] \<and> (\<forall>r \<in> set X. length r = length (hd X)) then Inr X
      else Inl InvalidArray)"

text \<open>
  Modelled from the spec: \<^verbatim>\<open>check_parameter\<close> of \<^verbatim>\<open>pyod/utils/utility.py\<close> is not among the
  sources. Section 4.4 of the specification: in restricted mode validate \<open>1 \<le> k \<le> n - 1\<close>,
  else fail with a parameter-range error. The call site passes the bounds \<open>1\<close> and
  \<^verbatim>\<open>self.n_train_\<close>.
\<close>

definition check_parameter :: "int \<Rightarrow> int \<Rightarrow> int \<Rightarrow> error + bool" where
  "check_parameter param low high =
     (if low \<le> param \<and> param \<le> high - 1 then Inr True else Inl ParameterRange)"

text \<open>
  The neighbour index of scikit-learn is a parameter of the model, as an opaque function;
  \<open>None\<close> stands for any exception it raises.
  \<^item> \<open>kneighbors X k\<close> is
    \<^verbatim>\<open>NearestNeighbors(n_neighbors=k).fit(X).kneighbors(n_neighbors=k, return_distance=False)\<close>:
    one row of indices for each training point.
  \<^item> \<open>tree_query t X k\<close> is the index part of \<^verbatim>\<open>t.query(X, k=k)\<close> for the tree \<open>t\<close>; a tree
    is represented by the points \<^verbatim>\<open>KDTree\<close> was built from.
\<close>

type_synonym kneighbors_fn = "matrix \<Rightarrow> int \<Rightarrow> nat list list option"
type_synonym tree_query_fn = "matrix \<Rightarrow> matrix \<Rightarrow> int \<Rightarrow> nat list list option"

text \<open>
  Modelled from the spec: \<^verbatim>\<open>_process_decision_scores\<close> of \<^verbatim>\<open>pyod/models/base.py\<close> is not
  among the sources. Section 6 of the specification: given the per-point score array and
  the contamination fraction, the base contract returns a scalar threshold and a binary
  label for each point. The function computing the two is a parameter.
\<close>

type_synonym base_fn = "real \<Rightarrow> npfloat list \<Rightarrow> npfloat \<times> nat list"

subsection \<open>The detector\<close>

text \<open>
  The attributes of an \<^verbatim>\<open>ABOD\<close> object. An attribute assigned only by \<^verbatim>\<open>fit\<close> is \<open>None\<close>
  until then. \<^verbatim>\<open>decision_scores_\<close> is an \<open>n \<times> 1\<close> array while the scores are computed and
  is flattened afterwards; both are the list of its entries. Attribute names lose the
  trailing underscore of the source. The optional labels \<^verbatim>\<open>y\<close> and
  the class count they set are left out.
\<close>

record detector =
  contamination :: real
  n_neighbors :: int
  "method" :: string
  X_train :: "matrix option"
  n_train :: "nat option"
  decision_scores :: "npfloat list option"
  tree :: "matrix option"
  threshold :: "npfloat option"
  labels :: "nat list option"

definition ABOD :: "real \<Rightarrow> int \<Rightarrow> string \<Rightarrow> detector" where
  "ABOD c k m =
     \<lparr>contamination = c, n_neighbors = k, method = m, X_train = None, n_train = None,
      decision_scores = None, tree = None, threshold = None, labels = None\<rparr>"

text \<open>
  A method that assigns attributes maps the object to the exception it raised, if any, and
  the object as it is left: an assignment made before a \<^verbatim>\<open>raise\<close> stays.
\<close>

text \<open>
  Modelled from the spec: \<^verbatim>\<open>_process_decision_scores\<close> of the base class is not among the
  sources. It reads the published scores and stores the threshold and the labels that the
  base contract derives from them and from the contamination; the scores stay as they are.
\<close>

definition process_decision_scores :: "base_fn \<Rightarrow> detector \<Rightarrow> error option \<times> detector" where
  "process_decision_scores base self =
     (case decision_scores self of
        None \<Rightarrow> (Some AttributeError, self)
      | Some ds \<Rightarrow>
          (None, self\<lparr>threshold := Some (fst (base (contamination self) ds)),
                      labels := Some (snd (base (contamination self) ds))\<rparr>))"

text \<open>
  The index lists of the two fitting loops: \<^verbatim>\<open>list(range(0, n))\<close> with \<open>i\<close> removed, and row
  \<open>i\<close> of the neighbour array.
\<close>

definition X_ind_default :: "nat \<Rightarrow> nat \<Rightarrow> error + nat list" where
  "X_ind_default n i = Inr (remove1 i [0..<n])"

definition X_ind_fast :: "nat list list \<Rightarrow> nat \<Rightarrow> error + nat list" where
  "X_ind_fast ind_arr i = row ind_arr i"

text \<open>
  The loops of \<^verbatim>\<open>_fit_default\<close> and \<^verbatim>\<open>_fit_fast\<close> differ only in the index list of point
  \<open>i\<close>, here the function \<open>X_ind_of\<close>. Each round writes one entry of \<^verbatim>\<open>decision_scores_\<close>.
\<close>

fun fit_loop :: "(nat \<Rightarrow> error + nat list) \<Rightarrow> nat list \<Rightarrow> detector \<Rightarrow> error option \<times> detector" where
  "fit_loop X_ind_of [] self = (None, self)"
| "fit_loop X_ind_of (i # rest) self =
     (case X_train self of None \<Rightarrow> (Some AttributeError, self) | Some X \<Rightarrow>
     (case row X i of Inl e \<Rightarrow> (Some e, self) | Inr curr_pt \<Rightarrow>
     (case X_ind_of i of Inl e \<Rightarrow> (Some e, self) | Inr X_ind \<Rightarrow>
     (case calculate_wocs curr_pt X X_ind of Inl e \<Rightarrow> (Some e, self) | Inr v \<Rightarrow>
     (case decision_scores self of None \<Rightarrow> (Some AttributeError, self) | Some ds \<Rightarrow>
        (if i < length ds
         then fit_loop X_ind_of rest (self\<lparr>decision_scores := Some (ds[i := v])\<rparr>)
         else (Some IndexError, self)))))))"

definition fit_default :: "detector \<Rightarrow> error option \<times> detector" where
  "fit_default self =
     (case n_train self of None \<Rightarrow> (Some AttributeError, self) | Some n \<Rightarrow>
        fit_loop (X_ind_default n) [0..<n] self)"

definition fit_fast :: "kneighbors_fn \<Rightarrow> detector \<Rightarrow> error option \<times> detector" where
  "fit_fast kneighbors self =
     (case n_train self of None \<Rightarrow> (Some AttributeError, self) | Some n \<Rightarrow>
     (case check_parameter (n_neighbors self) 1 (int n) of Inl e \<Rightarrow> (Some e, self) | Inr _ \<Rightarrow>
     (case X_train self of None \<Rightarrow> (Some AttributeError, self) | Some X \<Rightarrow>
     (case kneighbors X (n_neighbors self) of
        None \<Rightarrow> (Some IndexQueryError, self\<lparr>tree := Some X\<rparr>)
      | Some ind_arr \<Rightarrow> fit_loop (X_ind_fast ind_arr) [0..<n] (self\<lparr>tree := Some X\<rparr>)))))"

definition fit :: "kneighbors_fn \<Rightarrow> base_fn \<Rightarrow> matrix \<Rightarrow> detector \<Rightarrow> error option \<times> detector" where
  "fit kneighbors base X0 self =
     (case check_array X0 of Inl e \<Rightarrow> (Some e, self) | Inr X \<Rightarrow>
     (case (let self1 = self\<lparr>X_train := Some X, n_train := Some (length X),
                               decision_scores := Some (replicate (length X) (Num 0))\<rparr>
            in if method self1 = ''fast'' then fit_fast kneighbors self1
               else if method self1 = ''default'' then fit_default self1
               else (Some InvalidMethod, self1)) of
        (Some e, self2) \<Rightarrow> (Some e, self2)
      | (None, self2) \<Rightarrow>
          (case decision_scores self2 of None \<Rightarrow> (Some AttributeError, self2) | Some ds \<Rightarrow>
             process_decision_scores base (self2\<lparr>decision_scores := Some (map flip ds)\<rparr>))))"

text \<open>
  The loops of the two scoring methods, over the rows of the new points; each round writes
  one entry of \<^verbatim>\<open>pred_score\<close>.
\<close>

fun pred_loop ::
  "(nat \<Rightarrow> error + nat list) \<Rightarrow> matrix \<Rightarrow> matrix \<Rightarrow> nat list \<Rightarrow> npfloat list \<Rightarrow> error + npfloat list" where
  "pred_loop X_ind_of Xt X [] pred_score = Inr pred_score"
| "pred_loop X_ind_of Xt X (i # rest) pred_score =
     (case row X i of Inl e \<Rightarrow> Inl e | Inr curr_pt \<Rightarrow>
     (case X_ind_of i of Inl e \<Rightarrow> Inl e | Inr X_ind \<Rightarrow>
     (case calculate_wocs curr_pt Xt X_ind of Inl e \<Rightarrow> Inl e | Inr v \<Rightarrow>
        (if i < length pred_score then pred_loop X_ind_of Xt X rest (pred_score[i := v])
         else Inl IndexError))))"

definition decision_function_default :: "detector \<Rightarrow> matrix \<Rightarrow> error + npfloat list" where
  "decision_function_default self X =
     (case n_train self of None \<Rightarrow> Inl AttributeError | Some n \<Rightarrow>
     (case X_train self of None \<Rightarrow> Inl AttributeError | Some Xt \<Rightarrow>
        pred_loop (\<lambda>i. Inr [0..<n]) Xt X [0..<length X] (replicate (length X) (Num 0))))"

definition decision_function_fast :: "tree_query_fn \<Rightarrow> detector \<Rightarrow> matrix \<Rightarrow> error + npfloat list" where
  "decision_function_fast tree_query self X =
     (case tree self of None \<Rightarrow> Inl NotFittedError | Some t \<Rightarrow>
     (case tree_query t X (n_neighbors self) of None \<Rightarrow> Inl IndexQueryError | Some ind_arr \<Rightarrow>
     (case X_train self of None \<Rightarrow> Inl AttributeError | Some Xt \<Rightarrow>
        pred_loop (row ind_arr) Xt X [0..<length X] (replicate (length X) (Num 0)))))"

definition decision_function :: "tree_query_fn \<Rightarrow> detector \<Rightarrow> matrix \<Rightarrow> error + npfloat list" where
  "decision_function tree_query self X0 =
     (if X_train self = None \<or> n_train self = None \<or> decision_scores self = None
         \<or> threshold self = None \<or> labels self = None
      then Inl NotFittedError
      else (case check_array X0 of Inl e \<Rightarrow> Inl e | Inr X \<Rightarrow>
        (if method self = ''fast''
         then (case decision_function_fast tree_query self X of
                 Inl e \<Rightarrow> Inl e | Inr s \<Rightarrow> Inr (map flip s))
         else (case decision_function_default self X of
                 Inl e \<Rightarrow> Inl e | Inr s \<Rightarrow> Inr (map flip s)))))"

subsection \<open>A reference index by exhaustive search\<close>

text \<open>
  The theorems below hold for every index. To run them on data, the two queries are
  instantiated by exhaustive search: candidates sorted by distance, ties in index order.
  \<open>brute_kneighbors\<close> leaves the query point itself out, as scikit-learn does when
  \<^verbatim>\<open>kneighbors\<close> is called without points; \<open>brute_query\<close> does not. \<open>no_labels\<close> is a base
  contract that gives no threshold and labels every point \<open>0\<close>.
\<close>

definition sumsq :: "point \<Rightarrow> real" where
  "sumsq u = sum_list (map (\<lambda>x. x ^ 2) u)"

definition nearest :: "matrix \<Rightarrow> point \<Rightarrow> nat list \<Rightarrow> nat \<Rightarrow> nat list" where
  "nearest X q cands k = take k (sort_key (\<lambda>j. sumsq (map2 (-) (X ! j) q)) cands)"

definition brute_kneighbors :: kneighbors_fn where
  "brute_kneighbors X k =
     (if 0 < k \<and> k < int (length X)
      then Some (map (\<lambda>i. nearest X (X ! i) (remove1 i [0..<length X]) (nat k)) [0..<length X])
      else None)"

definition brute_query :: tree_query_fn where
  "brute_query t X k =
     (if 0 < k \<and> k \<le> int (length t)
      then Some (map (\<lambda>q. nearest t q [0..<length t] (nat k)) X)
      else None)"

definition no_labels :: base_fn where
  "no_labels c ds = (NaN, replicate (length ds) 0)"

subsection \<open>Notions used to state the properties\<close>

text \<open>
  The value the specification gives for the weighted cosine, the test that keeps a pair, and
  the list of values the loop of \<^verbatim>\<open>_calculate_wocs\<close> is expected to collect.
\<close>

definition wcos_val :: "point \<Rightarrow> point \<Rightarrow> point \<Rightarrow> real" where
  "wcos_val p a b =
     dotp (map2 (-) a p) (map2 (-) b p) / (sumsq (map2 (-) a p) * sumsq (map2 (-) b p))"

definition retained :: "point \<Rightarrow> matrix \<Rightarrow> nat \<times> nat \<Rightarrow> bool" where
  "retained p X ij = (X ! fst ij \<noteq> p \<and> X ! snd ij \<noteq> p)"

definition collected :: "point \<Rightarrow> matrix \<Rightarrow> (nat \<times> nat) list \<Rightarrow> real list" where
  "collected p X pairs =
     map (\<lambda>ij. wcos_val p (X ! fst ij) (X ! snd ij)) (filter (retained p X) pairs)"

text \<open>The raw score a loop computes for row \<open>i\<close> of \<open>X\<close> against the training set \<open>Xt\<close>.\<close>

definition raw_score :: "(nat \<Rightarrow> error + nat list) \<Rightarrow> matrix \<Rightarrow> matrix \<Rightarrow> nat \<Rightarrow> error + npfloat" where
  "raw_score X_ind_of Xt X i =
     (case X_ind_of i of Inl e \<Rightarrow> Inl e | Inr X_ind \<Rightarrow> calculate_wocs (X ! i) Xt X_ind)"

text \<open>
  The detector after the three assignments that open \<^verbatim>\<open>fit\<close>, and after the scores \<open>raw\<close>
  have been computed, negated and handed to the base class.
\<close>

definition started :: "matrix \<Rightarrow> detector \<Rightarrow> detector" where
  "started X self =
     self\<lparr>X_train := Some X, n_train := Some (length X),
          decision_scores := Some (replicate (length X) (Num 0))\<rparr>"

definition published :: "base_fn \<Rightarrow> npfloat list \<Rightarrow> detector \<Rightarrow> detector" where
  "published base raw self =
     self\<lparr>decision_scores := Some (map flip raw),
          threshold := Some (fst (base (contamination self) (map flip raw))),
          labels := Some (snd (base (contamination self) (map flip raw)))\<rparr>"

text \<open>The choice between the two fitting methods made by \<^verbatim>\<open>fit\<close>.\<close>

definition dispatch :: "kneighbors_fn \<Rightarrow> detector \<Rightarrow> error option \<times> detector" where
  "dispatch kn s =
     (if method s = ''fast'' then fit_fast kn s
      else if method s = ''default'' then fit_default s
      else (Some InvalidMethod, s))"

text \<open>A detector fitted in fast mode on three points of the line, used in the examples.\<close>

definition fitted3 :: detector where
  "fitted3 = snd (fit brute_kneighbors no_labels [[0], [1], [3]] (ABOD (1 / 10) 2 ''fast''))"

text \<open>The same three points fitted in default mode.\<close>

definition fitted3_default :: detector where
  "fitted3_default =
     snd (fit brute_kneighbors no_labels [[0], [1], [3]] (ABOD (1 / 10) 2 ''default''))"

text \<open>Four points of the plane, used in the examples.\<close>

definition square4 :: matrix where
  "square4 = [[0, 0], [1, 0], [0, 1], [2, 2]]"

section \<open>Properties of the geometric primitive\<close>

lemma sumsq_nonneg: "0 \<le> sumsq u"
  unfolding sumsq_def by (induction u) auto

lemma norm2_sq: "norm2 u ^ 2 = sumsq u"
proof -
  have "norm2 u = sqrt (sumsq u)"
    by (simp add: norm2_def sumsq_def)
  then show ?thesis
    using sumsq_nonneg [of u] by simp
qed

lemma wcos_code [code]:
  "wcos curr_pt a b =
     (case vsub a curr_pt of Inl e \<Rightarrow> Inl e | Inr a_curr \<Rightarrow>
     (case vsub b curr_pt of Inl e \<Rightarrow> Inl e | Inr b_curr \<Rightarrow>
     (case dot a_curr b_curr of Inl e \<Rightarrow> Inl e | Inr d \<Rightarrow>
     (case fdiv d (sumsq a_curr) of Inl e \<Rightarrow> Inl e | Inr q \<Rightarrow>
        fdiv q (sumsq b_curr)))))"
  by (simp add: wcos_def norm2_sq split: sum.splits)

lemma sumsq_zero_iff: "sumsq u = 0 \<longleftrightarrow> (\<forall>x \<in> set u. x = 0)"
proof (induction u)
  case Nil
  then show ?case by (simp add: sumsq_def)
next
  case (Cons x u)
  have "sumsq (x # u) = x ^ 2 + sumsq u"
    by (simp add: sumsq_def)
  moreover have "0 \<le> x ^ 2" by simp
  ultimately have "sumsq (x # u) = 0 \<longleftrightarrow> x ^ 2 = 0 \<and> sumsq u = 0"
    using sumsq_nonneg [of u] by linarith
  with Cons show ?case by simp
qed

lemma map2_minus_zero:
  "length a = length p \<Longrightarrow> (\<forall>x \<in> set (map2 (-) a p). x = (0::real)) \<Longrightarrow> a = p"
proof (induction a arbitrary: p)
  case Nil
  then show ?case by simp
next
  case (Cons x a)
  then obtain y q where p: "p = y # q" by (cases p) auto
  with Cons.prems have "x = y" and "length a = length q"
    and "\<forall>z \<in> set (map2 (-) a q). z = 0" by auto
  with Cons.IH p show ?case by simp
qed

lemma sumsq_diff_pos:
  assumes "length a = length p" and "a \<noteq> p"
  shows "0 < sumsq (map2 (-) a p)"
proof -
  have "sumsq (map2 (-) a p) \<noteq> 0"
    using assms map2_minus_zero [of a p] by (auto simp: sumsq_zero_iff)
  then show ?thesis
    using sumsq_nonneg [of "map2 (-) a p"] by linarith
qed

text \<open>The primitive in closed form, without the square root.\<close>

lemma wcos_same_length:
  assumes "length a = length p" and "length b = length p"
  shows "wcos p a b =
           (if sumsq (map2 (-) a p) = 0 \<or> sumsq (map2 (-) b p) = 0 then Inl ZeroDivisionError
            else Inr (dotp (map2 (-) a p) (map2 (-) b p)
                        / sumsq (map2 (-) a p) / sumsq (map2 (-) b p)))"
  using assms by (simp add: wcos_def vsub_def dot_def fdiv_def norm2_sq)

lemma dotp_commute: "dotp u v = dotp v u"
proof -
  have "map2 (*) u v = map2 (*) v u"
  proof (induction u arbitrary: v)
    case Nil
    then show ?case by simp
  next
    case (Cons x u)
    then show ?case by (cases v) (simp_all add: mult.commute)
  qed
  then show ?thesis by (simp add: dotp_def)
qed


text \<open>
  C1. For points \<open>p\<close>, \<open>a\<close>, \<open>b\<close> of one dimension with \<open>a\<close> and \<open>b\<close> distinct from \<open>p\<close>, the
  weighted cosine returns the dot product of \<open>a - p\<close> and \<open>b - p\<close> divided by the product of
  the squared Euclidean norms of \<open>a - p\<close> and \<open>b - p\<close>; the divisor is not zero.
\<close>

theorem wcos_value:
  assumes "length a = length p" and "length b = length p"
    and "a \<noteq> p" and "b \<noteq> p"
  shows "wcos p a b =
           Inr (dotp (map2 (-) a p) (map2 (-) b p)
                  / (norm2 (map2 (-) a p) ^ 2 * norm2 (map2 (-) b p) ^ 2))
         \<and> norm2 (map2 (-) a p) ^ 2 * norm2 (map2 (-) b p) ^ 2 \<noteq> 0"
proof -
  have "0 < sumsq (map2 (-) a p)" and "0 < sumsq (map2 (-) b p)"
    using assms by (simp_all add: sumsq_diff_pos)
  then show ?thesis
    using assms(1,2) by (simp add: wcos_same_length norm2_sq)
qed

theorem wcos_value_witness:
  "wcos [0, 0] [1, 0] [1, 1] = Inr (1 / 2)"
proof -
  have "wcos [0, 0] [1, 0] [1, 1] =
          Inr (dotp (map2 (-) [1, 0] [0, 0]) (map2 (-) [1, 1] [0, 0])
                 / (norm2 (map2 (-) [1, 0] [0, 0]) ^ 2 * norm2 (map2 (-) [1, 1] [0, 0]) ^ 2))"
    using wcos_value [of "[1, 0]" "[0, 0]" "[1, 1]"] by simp
  then show ?thesis
    by (simp add: norm2_sq sumsq_def dotp_def)
qed

text \<open>
  C9. The weighted cosine is symmetric in its last two arguments: for \<open>a\<close> and \<open>b\<close> of the
  dimension of \<open>p\<close> and distinct from \<open>p\<close>, both orders return the same number.
\<close>

theorem wcos_symmetric:
  assumes "length a = length p" and "length b = length p"
    and "a \<noteq> p" and "b \<noteq> p"
  shows "wcos p a b = wcos p b a \<and> (\<exists>w. wcos p a b = Inr w)"
proof -
  have "0 < sumsq (map2 (-) a p)" and "0 < sumsq (map2 (-) b p)"
    using assms by (simp_all add: sumsq_diff_pos)
  then show ?thesis
    using assms(1,2)
    by (simp add: wcos_same_length dotp_commute [of "map2 (-) a p"] divide_divide_eq_left mult.commute)
qed

theorem wcos_symmetric_witness:
  "wcos [0, 0] [1, 0] [1, 1] = wcos [0, 0] [1, 1] [1, 0]
   \<and> (\<exists>w. wcos [0, 0] [1, 0] [1, 1] = Inr w)"
  by (rule wcos_symmetric) simp_all

section \<open>Properties of the variance loop\<close>

lemma wcos_retained:
  assumes "length a = length p" and "length b = length p" and "a \<noteq> p" and "b \<noteq> p"
  shows "wcos p a b = Inr (wcos_val p a b)"
proof -
  have "0 < sumsq (map2 (-) a p)" and "0 < sumsq (map2 (-) b p)"
    using assms by (simp_all add: sumsq_diff_pos)
  then show ?thesis
    using assms(1,2) by (simp add: wcos_same_length wcos_val_def divide_divide_eq_left)
qed

lemma wocs_loop_collected:
  assumes "\<forall>r \<in> set X. length r = length p"
    and "\<forall>ij \<in> set pairs. fst ij < length X \<and> snd ij < length X"
  shows "wocs_loop p X pairs acc = Inr (acc @ collected p X pairs)"
  using assms(2)
proof (induction pairs arbitrary: acc)
  case Nil
  then show ?case by (simp add: collected_def)
next
  case (Cons ij pairs)
  obtain i j where ij: "ij = (i, j)" by (cases ij)
  from Cons.prems ij have ran: "i < length X" "j < length X" by auto
  from Cons.prems have rest: "\<forall>ij \<in> set pairs. fst ij < length X \<and> snd ij < length X"
    by simp
  have len: "length (X ! i) = length p" "length (X ! j) = length p"
    using assms(1) ran by auto
  show ?case
  proof (cases "X ! i = p \<or> X ! j = p")
    case True
    then show ?thesis
      using ran ij Cons.IH [OF rest] by (auto simp: row_def collected_def retained_def)
  next
    case False
    then have "wcos p (X ! i) (X ! j) = Inr (wcos_val p (X ! i) (X ! j))"
      using len by (simp add: wcos_retained)
    then show ?thesis
      using False ran ij Cons.IH [OF rest] by (simp add: row_def collected_def retained_def)
  qed
qed

lemma wocs_loop_errors:
  "wocs_loop p X pairs acc = Inl e \<Longrightarrow> e \<in> {IndexError, ShapeMismatch, ZeroDivisionError}"
proof (induction pairs arbitrary: acc)
  case Nil
  then show ?case by simp
next
  case (Cons ij pairs)
  obtain i j where ij: "ij = (i, j)" by (cases ij)
  have w: "\<And>a b e. wcos p a b = Inl e \<Longrightarrow> e \<in> {ShapeMismatch, ZeroDivisionError}"
    by (auto simp: wcos_def vsub_def dot_def fdiv_def split: sum.splits if_splits)
  from Cons.prems ij show ?case
    using Cons.IH w
    by (auto simp: row_def split: sum.splits if_splits)
qed








text \<open>
  The dimensions must agree: a query point with one coordinate is broadcast against the
  training points, and the displacement of a training point unequal to it can be zero.
\<close>

lemma broadcast_zero_displacement:
  "[5, 5] \<noteq> [5 :: real] \<and> vsub [5, 5] [5] = Inr [0, 0]
   \<and> calculate_wocs [5] [[5, 5], [1, 2]] [0, 1] = Inl ZeroDivisionError"
  by (simp add: vsub_def calculate_wocs_def row_def wcos_def dot_def fdiv_def norm2_def)



text \<open>
  C2, as stated, fails: with the query point \<open>[0]\<close> and the training points \<open>[1]\<close> and
  \<open>[2]\<close> one value is collected, and the result is the number \<open>0\<close>, not nan.
\<close>

theorem single_value_variance_counterexample:
  "wocs_loop [0] [[1], [2]] (combinations2 [0, 1]) [] = Inr [1 / 2]
   \<and> calculate_wocs [0] [[1], [2]] [0, 1] = Inr (Num 0)
   \<and> calculate_wocs [0] [[1], [2]] [0, 1] \<noteq> Inr NaN"
  by (simp add: calculate_wocs_def row_def wcos_same_length sumsq_def dotp_def np_var_def mean_def)

text \<open>
  C2, amended. When the loop ends with no value collected, \<^verbatim>\<open>_calculate_wocs\<close> returns nan;
  when it ends with exactly one value, it returns \<open>0\<close>. Neither case raises.
\<close>

theorem few_values_variance:
  assumes "wocs_loop p X (combinations2 X_ind) [] = Inr ws" and "length ws \<le> 1"
  shows "calculate_wocs p X X_ind = Inr (if ws = [] then NaN else Num 0)"
proof (cases ws)
  case Nil
  with assms show ?thesis by (simp add: calculate_wocs_def np_var_def)
next
  case (Cons w rest)
  with assms(2) have "ws = [w]" by simp
  with assms(1) show ?thesis by (simp add: calculate_wocs_def np_var_def mean_def)
qed

theorem few_values_variance_witness:
  "calculate_wocs [0] [[1], [2]] [0] = Inr NaN \<and> calculate_wocs [0] [[1], [2]] [0, 1] = Inr (Num 0)"
proof -
  have a: "wocs_loop [0] [[1], [2]] (combinations2 [0]) [] = Inr []"
    by simp
  have b: "wocs_loop [0] [[1], [2]] (combinations2 [0, 1]) [] = Inr [1 / 2]"
    by (simp add: row_def wcos_same_length sumsq_def dotp_def)
  show ?thesis
    using few_values_variance [OF a] few_values_variance [OF b] by simp
qed

section \<open>Properties of the fitting loop\<close>

lemma calculate_wocs_errors:
  "calculate_wocs p X X_ind = Inl e \<Longrightarrow> e \<in> {IndexError, ShapeMismatch, ZeroDivisionError}"
  using wocs_loop_errors [of p X "combinations2 X_ind" "[]" e]
  by (auto simp: calculate_wocs_def split: sum.splits)

lemma raw_score_errors:
  assumes "raw_score f Xt X i = Inl e" and "\<And>j e'. f j = Inl e' \<Longrightarrow> e' = IndexError"
  shows "e \<in> {IndexError, ShapeMismatch, ZeroDivisionError}"
proof (cases "f i")
  case (Inl e')
  with assms show ?thesis by (auto simp: raw_score_def)
next
  case (Inr inds)
  with assms(1) show ?thesis
    using calculate_wocs_errors [of "X ! i" Xt inds e] by (simp add: raw_score_def)
qed

lemma fit_loop_step:
  assumes "X_train self = Some X" and "decision_scores self = Some ds"
    and "i < length X" and "i < length ds" and "raw_score f X X i = Inr v"
  shows "fit_loop f (i # rest) self = fit_loop f rest (self\<lparr>decision_scores := Some (ds[i := v])\<rparr>)"
  using assms by (auto simp: raw_score_def row_def split: sum.splits)

lemma fit_loop_success:
  assumes "X_train self = Some X" and "decision_scores self = Some ds"
    and "\<forall>i \<in> set is. i < length X \<and> i < length ds \<and> raw_score f X X i = Inr (g i)"
  shows "fit_loop f is self =
           (None, self\<lparr>decision_scores := Some (fold (\<lambda>i d. d[i := g i]) is ds)\<rparr>)"
  using assms
proof (induction "is" arbitrary: self ds)
  case Nil
  then show ?case by simp
next
  case (Cons i rest)
  let ?self = "self\<lparr>decision_scores := Some (ds[i := g i])\<rparr>"
  have step: "fit_loop f (i # rest) self = fit_loop f rest ?self"
    using Cons.prems by (intro fit_loop_step) auto
  have "fit_loop f rest ?self =
          (None, ?self\<lparr>decision_scores := Some (fold (\<lambda>i d. d[i := g i]) rest (ds[i := g i]))\<rparr>)"
    using Cons.prems by (intro Cons.IH) auto
  with step show ?case by simp
qed

lemma fit_loop_None:
  assumes "fit_loop f is self = (None, self')"
    and "X_train self = Some X" and "decision_scores self = Some ds"
  shows "\<forall>i \<in> set is. i < length X \<and> i < length ds \<and> (\<exists>v. raw_score f X X i = Inr v)"
  using assms
proof (induction "is" arbitrary: self ds)
  case Nil
  then show ?case by simp
next
  case (Cons i rest)
  from Cons.prems obtain v where
    i: "i < length X" "i < length ds" "raw_score f X X i = Inr v"
    by (auto simp: raw_score_def row_def split: sum.splits if_splits)
  let ?self = "self\<lparr>decision_scores := Some (ds[i := v])\<rparr>"
  have "fit_loop f rest ?self = (None, self')"
    using Cons.prems(1) fit_loop_step [OF Cons.prems(2,3) i] by simp
  then have "\<forall>j \<in> set rest. j < length X \<and> j < length (ds[i := v]) \<and> (\<exists>v. raw_score f X X j = Inr v)"
    using Cons.prems(2) by (intro Cons.IH [where self = ?self]) auto
  with i show ?case by auto
qed

lemma fit_loop_error_kinds:
  assumes "fst (fit_loop f is self) = Some e" and "\<And>j e'. f j = Inl e' \<Longrightarrow> e' = IndexError"
  shows "e \<in> {AttributeError, IndexError, ShapeMismatch, ZeroDivisionError}"
  using assms(1)
proof (induction "is" arbitrary: self)
  case Nil
  then show ?case by simp
next
  case (Cons i rest)
  have c: "\<And>p X inds e. calculate_wocs p X inds = Inl e \<Longrightarrow> e \<in> {IndexError, ShapeMismatch, ZeroDivisionError}"
    by (rule calculate_wocs_errors)
  from Cons.prems show ?case
    using Cons.IH assms(2) c
    by (fastforce simp: row_def split: option.splits sum.splits if_splits)
qed

lemma fold_update_length: "length (fold (\<lambda>i d. d[i := g i]) is ds) = length ds"
  by (induction "is" arbitrary: ds) auto

lemma fold_update_nth:
  "j < length ds \<Longrightarrow>
     fold (\<lambda>i d. d[i := g i]) is ds ! j = (if j \<in> set is then g j else ds ! j)"
proof (induction "is" arbitrary: ds)
  case Nil
  then show ?case by simp
next
  case (Cons i rest)
  then show ?case by (cases "i = j") auto
qed

lemma fold_update_upt:
  "length ds = n \<Longrightarrow> fold (\<lambda>i d. d[i := g i]) [0..<n] ds = map g [0..<n]"
  by (rule nth_equalityI) (simp_all add: fold_update_length fold_update_nth)

lemma fit_loop_upt:
  assumes "X_train s = Some X" and "decision_scores s = Some ds" and "length ds = length X"
  shows "fit_loop f [0..<length X] s = (None, s') \<longleftrightarrow>
           (\<exists>raw. length raw = length X \<and> (\<forall>i < length X. raw_score f X X i = Inr (raw ! i))
                  \<and> s' = s\<lparr>decision_scores := Some raw\<rparr>)"
proof
  assume run: "fit_loop f [0..<length X] s = (None, s')"
  define g where "g i = projr (raw_score f X X i)" for i
  have ok: "\<forall>i \<in> set [0..<length X]. i < length X \<and> i < length ds \<and> raw_score f X X i = Inr (g i)"
    using fit_loop_None [OF run assms(1,2)] by (auto simp: g_def)
  have "fit_loop f [0..<length X] s =
          (None, s\<lparr>decision_scores := Some (fold (\<lambda>i d. d[i := g i]) [0..<length X] ds)\<rparr>)"
    by (rule fit_loop_success [OF assms(1,2) ok])
  with run have "s' = s\<lparr>decision_scores := Some (map g [0..<length X])\<rparr>"
    by (simp add: fold_update_upt [OF assms(3)])
  moreover have "\<forall>i < length X. raw_score f X X i = Inr (map g [0..<length X] ! i)"
    using ok by simp
  ultimately show "\<exists>raw. length raw = length X \<and> (\<forall>i < length X. raw_score f X X i = Inr (raw ! i))
                  \<and> s' = s\<lparr>decision_scores := Some raw\<rparr>"
    by (intro exI [of _ "map g [0..<length X]"]) simp
next
  assume "\<exists>raw. length raw = length X \<and> (\<forall>i < length X. raw_score f X X i = Inr (raw ! i))
                  \<and> s' = s\<lparr>decision_scores := Some raw\<rparr>"
  then obtain raw where raw: "length raw = length X"
    "\<forall>i < length X. raw_score f X X i = Inr (raw ! i)" "s' = s\<lparr>decision_scores := Some raw\<rparr>"
    by blast
  have ok: "\<forall>i \<in> set [0..<length X]. i < length X \<and> i < length ds \<and> raw_score f X X i = Inr (raw ! i)"
    using raw(2) assms(3) by simp
  have "map ((!) raw) [0..<length X] = raw"
    using raw(1) map_nth [of raw] by simp
  then show "fit_loop f [0..<length X] s = (None, s')"
    using fit_loop_success [OF assms(1,2) ok] raw(3)
    by (simp add: fold_update_upt [OF assms(3)])
qed

lemma check_array_id: "check_array X0 = Inr X \<Longrightarrow> X = X0"
  by (simp add: check_array_def split: if_splits)

section \<open>Properties of fit\<close>

lemma fit_default_iff:
  assumes "method self = ''default''"
  shows "fit kn base X self = (None, self') \<longleftrightarrow>
           check_array X = Inr X
           \<and> (\<exists>raw. length raw = length X
                  \<and> (\<forall>i < length X. raw_score (X_ind_default (length X)) X X i = Inr (raw ! i))
                  \<and> self' = published base raw (started X self))"
proof (cases "check_array X")
  case (Inl e)
  then show ?thesis by (simp add: fit_def)
next
  case (Inr X')
  then have X': "X' = X" by (rule check_array_id)
  let ?s = "started X self"
  have s: "X_train ?s = Some X" "decision_scores ?s = Some (replicate (length X) (Num 0))"
    "n_train ?s = Some (length X)" "method ?s = ''default''"
    using assms by (simp_all add: started_def)
  have loop: "fit_default ?s = fit_loop (X_ind_default (length X)) [0..<length X] ?s"
    using s by (simp add: fit_default_def)
  have fit: "fit kn base X self =
      (case fit_default ?s of
         (Some e, self2) \<Rightarrow> (Some e, self2)
       | (None, self2) \<Rightarrow>
          (case decision_scores self2 of None \<Rightarrow> (Some AttributeError, self2) | Some ds \<Rightarrow>
             process_decision_scores base (self2\<lparr>decision_scores := Some (map flip ds)\<rparr>)))"
    using Inr X' assms by (simp add: fit_def started_def Let_def)
  show ?thesis
  proof
    assume run: "fit kn base X self = (None, self')"
    then obtain s2 where s2: "fit_default ?s = (None, s2)"
      using fit by (cases "fit_default ?s") (auto split: option.splits)
    then obtain raw where raw: "length raw = length X"
      "\<forall>i < length X. raw_score (X_ind_default (length X)) X X i = Inr (raw ! i)"
      "s2 = ?s\<lparr>decision_scores := Some raw\<rparr>"
      using fit_loop_upt [of ?s X _ "X_ind_default (length X)" s2] s loop by auto
    have "self' = published base raw ?s"
      using run fit s2 raw(3)
      by (simp add: process_decision_scores_def published_def started_def)
    with raw Inr X' show "check_array X = Inr X
           \<and> (\<exists>raw. length raw = length X
                  \<and> (\<forall>i < length X. raw_score (X_ind_default (length X)) X X i = Inr (raw ! i))
                  \<and> self' = published base raw (started X self))"
      by blast
  next
    assume "check_array X = Inr X
           \<and> (\<exists>raw. length raw = length X
                  \<and> (\<forall>i < length X. raw_score (X_ind_default (length X)) X X i = Inr (raw ! i))
                  \<and> self' = published base raw (started X self))"
    then obtain raw where raw: "length raw = length X"
      "\<forall>i < length X. raw_score (X_ind_default (length X)) X X i = Inr (raw ! i)"
      "self' = published base raw ?s"
      by blast
    have "fit_default ?s = (None, ?s\<lparr>decision_scores := Some raw\<rparr>)"
      using fit_loop_upt [of ?s X _ "X_ind_default (length X)" "?s\<lparr>decision_scores := Some raw\<rparr>"]
        s loop raw(1,2) by auto
    then show "fit kn base X self = (None, self')"
      using fit raw(3)
      by (simp add: process_decision_scores_def published_def started_def)
  qed
qed

lemma fit_fast_iff:
  assumes "method self = ''fast''"
  shows "fit kn base X self = (None, self') \<longleftrightarrow>
           check_array X = Inr X
           \<and> check_parameter (n_neighbors self) 1 (int (length X)) = Inr True
           \<and> (\<exists>ind_arr raw. kn X (n_neighbors self) = Some ind_arr \<and> length raw = length X
                  \<and> (\<forall>i < length X. raw_score (X_ind_fast ind_arr) X X i = Inr (raw ! i))
                  \<and> self' = published base raw ((started X self)\<lparr>tree := Some X\<rparr>))"
proof (cases "check_array X")
  case (Inl e)
  then show ?thesis by (simp add: fit_def)
next
  case (Inr X')
  then have X': "X' = X" by (rule check_array_id)
  let ?s = "started X self"
  let ?t = "?s\<lparr>tree := Some X\<rparr>"
  have t: "X_train ?t = Some X" "decision_scores ?t = Some (replicate (length X) (Num 0))"
    by (simp_all add: started_def)
  have fit: "fit kn base X self =
      (case fit_fast kn ?s of
         (Some e, self2) \<Rightarrow> (Some e, self2)
       | (None, self2) \<Rightarrow>
          (case decision_scores self2 of None \<Rightarrow> (Some AttributeError, self2) | Some ds \<Rightarrow>
             process_decision_scores base (self2\<lparr>decision_scores := Some (map flip ds)\<rparr>)))"
    using Inr X' assms by (simp add: fit_def started_def Let_def)
  show ?thesis
  proof (cases "check_parameter (n_neighbors self) 1 (int (length X))")
    case (Inl e)
    then have "fit_fast kn ?s = (Some e, ?s)"
      by (simp add: fit_fast_def started_def)
    with Inl fit show ?thesis by simp
  next
    case chk: (Inr b)
    then have b: "check_parameter (n_neighbors self) 1 (int (length X)) = Inr True"
      by (simp add: check_parameter_def split: if_splits)
    show ?thesis
    proof (cases "kn X (n_neighbors self)")
      case None
      then have "fst (fit_fast kn ?s) = Some IndexQueryError"
        using chk by (simp add: fit_fast_def started_def)
      then have "fst (fit kn base X self) = Some IndexQueryError"
        using fit by (cases "fit_fast kn ?s") auto
      with None show ?thesis by auto
    next
      case (Some ind_arr)
      then have loop: "fit_fast kn ?s = fit_loop (X_ind_fast ind_arr) [0..<length X] ?t"
        using chk by (simp add: fit_fast_def started_def)
      show ?thesis
      proof
        assume run: "fit kn base X self = (None, self')"
        then obtain s2 where s2: "fit_fast kn ?s = (None, s2)"
          using fit by (cases "fit_fast kn ?s") (auto split: option.splits)
        then obtain raw where raw: "length raw = length X"
          "\<forall>i < length X. raw_score (X_ind_fast ind_arr) X X i = Inr (raw ! i)"
          "s2 = ?t\<lparr>decision_scores := Some raw\<rparr>"
          using fit_loop_upt [of ?t X _ "X_ind_fast ind_arr" s2] t loop by auto
        have "self' = published base raw ?t"
          using run fit s2 raw(3)
          by (simp add: process_decision_scores_def published_def started_def)
        with raw Inr X' b Some show "check_array X = Inr X
           \<and> check_parameter (n_neighbors self) 1 (int (length X)) = Inr True
           \<and> (\<exists>ind_arr raw. kn X (n_neighbors self) = Some ind_arr \<and> length raw = length X
                  \<and> (\<forall>i < length X. raw_score (X_ind_fast ind_arr) X X i = Inr (raw ! i))
                  \<and> self' = published base raw ((started X self)\<lparr>tree := Some X\<rparr>))"
          by blast
      next
        assume "check_array X = Inr X
           \<and> check_parameter (n_neighbors self) 1 (int (length X)) = Inr True
           \<and> (\<exists>ind_arr raw. kn X (n_neighbors self) = Some ind_arr \<and> length raw = length X
                  \<and> (\<forall>i < length X. raw_score (X_ind_fast ind_arr) X X i = Inr (raw ! i))
                  \<and> self' = published base raw ((started X self)\<lparr>tree := Some X\<rparr>))"
        then obtain raw where raw: "length raw = length X"
          "\<forall>i < length X. raw_score (X_ind_fast ind_arr) X X i = Inr (raw ! i)"
          "self' = published base raw ?t"
          using Some by auto
        have "fit_fast kn ?s = (None, ?t\<lparr>decision_scores := Some raw\<rparr>)"
          using fit_loop_upt [of ?t X _ "X_ind_fast ind_arr" "?t\<lparr>decision_scores := Some raw\<rparr>"]
            t loop raw(1,2) by auto
        then show "fit kn base X self = (None, self')"
          using fit raw(3)
          by (simp add: process_decision_scores_def published_def started_def)
      qed
    qed
  qed
qed

lemma X_ind_errors:
  "X_ind_default n j = Inl e \<Longrightarrow> e = IndexError" "X_ind_fast ind_arr j = Inl e \<Longrightarrow> e = IndexError"
  by (simp_all add: X_ind_default_def X_ind_fast_def row_def split: if_splits)

lemma fit_default_error_kinds:
  assumes "fst (fit_default s) = Some e"
  shows "e \<in> {AttributeError, IndexError, ShapeMismatch, ZeroDivisionError}"
proof (cases "n_train s")
  case None
  with assms show ?thesis by (simp add: fit_default_def)
next
  case (Some n)
  with assms have "fst (fit_loop (X_ind_default n) [0..<n] s) = Some e"
    by (simp add: fit_default_def)
  then show ?thesis
    by (rule fit_loop_error_kinds) (rule X_ind_errors)
qed

lemma fit_fast_error_kinds:
  assumes "fst (fit_fast kn s) = Some e" and "n_train s = Some n"
    and "check_parameter (n_neighbors s) 1 (int n) = Inr b"
  shows "e \<in> {AttributeError, IndexError, ShapeMismatch, ZeroDivisionError, IndexQueryError}"
proof (cases "X_train s")
  case None
  with assms show ?thesis by (simp add: fit_fast_def)
next
  case X: (Some X)
  show ?thesis
  proof (cases "kn X (n_neighbors s)")
    case None
    with assms X show ?thesis by (simp add: fit_fast_def)
  next
    case (Some ind_arr)
    with assms X have "fst (fit_loop (X_ind_fast ind_arr) [0..<n] (s\<lparr>tree := Some X\<rparr>)) = Some e"
      by (simp add: fit_fast_def)
    then have "e \<in> {AttributeError, IndexError, ShapeMismatch, ZeroDivisionError}"
      by (rule fit_loop_error_kinds) (rule X_ind_errors)
    then show ?thesis by auto
  qed
qed

lemma fit_fast_rejects:
  assumes "n_train s = Some n" and "check_parameter (n_neighbors s) 1 (int n) = Inl e"
  shows "fit_fast kn s = (Some ParameterRange, s)"
  using assms by (simp add: fit_fast_def check_parameter_def split: if_splits)

lemma fit_dispatch:
  assumes "check_array X = Inr X"
  shows "fit kn base X self =
      (case dispatch kn (started X self) of
         (Some e, self2) \<Rightarrow> (Some e, self2)
       | (None, self2) \<Rightarrow>
          (case decision_scores self2 of None \<Rightarrow> (Some AttributeError, self2) | Some ds \<Rightarrow>
             process_decision_scores base (self2\<lparr>decision_scores := Some (map flip ds)\<rparr>)))"
  using assms by (simp add: fit_def dispatch_def started_def Let_def)

lemma fit_error_dispatch:
  assumes "check_array X = Inr X" and "fst (fit kn base X self) = Some e" and "e \<noteq> AttributeError"
  shows "dispatch kn (started X self) = (Some e, snd (fit kn base X self))"
proof (cases "dispatch kn (started X self)")
  case (Pair r s2)
  show ?thesis
  proof (cases r)
    case (Some e')
    with Pair assms show ?thesis by (simp add: fit_dispatch)
  next
    case None
    with Pair assms show ?thesis
      by (cases "decision_scores s2") (simp_all add: fit_dispatch process_decision_scores_def)
  qed
qed

lemma fit_invalid_array:
  assumes "check_array X \<noteq> Inr X"
  shows "fit kn base X self = (Some InvalidArray, self)"
proof (cases "check_array X")
  case (Inl e)
  then show ?thesis by (auto simp: fit_def check_array_def split: if_splits)
next
  case (Inr X')
  with assms check_array_id [of X X'] show ?thesis by simp
qed

text \<open>Unfolding the model on concrete data.\<close>

lemmas run_defs = fit_def fit_fast_def fit_default_def check_array_def check_parameter_def
  X_ind_fast_def X_ind_default_def process_decision_scores_def calculate_wocs_def row_def
  wcos_same_length sumsq_def dotp_def np_var_def mean_def ABOD_def Let_def
  brute_kneighbors_def brute_query_def nearest_def no_labels_def upt_rec_numeral


lemma fitted3_value:
  "fitted3 =
     \<lparr>contamination = 1 / 10, n_neighbors = 2, method = ''fast'',
      X_train = Some [[0], [1], [3]], n_train = Some 3,
      decision_scores = Some [Num 0, Num 0, Num 0],
      tree = Some [[0], [1], [3]], threshold = Some NaN, labels = Some [0, 0, 0]\<rparr>"
  unfolding fitted3_def by (simp add: run_defs)

text \<open>
  C4, as stated, fails. A detector with \<open>k = 2\<close> fitted on three points is fitted again on
  two points, for which \<open>k\<close> is out of range. The call raises the parameter error, and the
  training set, its size and the score array of the detector are those of the rejected call,
  while the index is still the one of the first fit.
\<close>

theorem refit_error_counterexample:
  "X_train fitted3 = Some [[0], [1], [3]]
   \<and> fst (fit brute_kneighbors no_labels [[5], [6]] fitted3) = Some ParameterRange
   \<and> X_train (snd (fit brute_kneighbors no_labels [[5], [6]] fitted3)) = Some [[5], [6]]
   \<and> n_train (snd (fit brute_kneighbors no_labels [[5], [6]] fitted3)) = Some 2
   \<and> decision_scores (snd (fit brute_kneighbors no_labels [[5], [6]] fitted3)) = Some [Num 0, Num 0]
   \<and> tree (snd (fit brute_kneighbors no_labels [[5], [6]] fitted3)) = Some [[0], [1], [3]]
   \<and> snd (fit brute_kneighbors no_labels [[5], [6]] fitted3) \<noteq> fitted3"
  by (simp add: fitted3_value) (simp add: run_defs)

text \<open>
  C4, amended. When \<^verbatim>\<open>fit\<close> raises the error of an invalid method or of a neighbour count
  out of range, no score has been computed and no index built: the detector is the one
  before the call with three attributes overwritten, the training set and its size by those
  of the call and the score array by zeros. The index, the threshold and the labels are the
  ones before the call. The first error is raised exactly for a method that is neither
  \<^verbatim>\<open>'fast'\<close> nor \<^verbatim>\<open>'default'\<close>, the second in fast mode when \<^verbatim>\<open>check_parameter\<close> rejects.
\<close>

theorem fit_parameter_error_state:
  assumes "fst (fit kn base X self) = Some e" and "e = ParameterRange \<or> e = InvalidMethod"
  shows "snd (fit kn base X self) = started X self
       \<and> X_train (snd (fit kn base X self)) = Some X
       \<and> n_train (snd (fit kn base X self)) = Some (length X)
       \<and> decision_scores (snd (fit kn base X self)) = Some (replicate (length X) (Num 0))
       \<and> tree (snd (fit kn base X self)) = tree self
       \<and> threshold (snd (fit kn base X self)) = threshold self
       \<and> labels (snd (fit kn base X self)) = labels self
       \<and> (e = InvalidMethod \<longrightarrow> method self \<noteq> ''fast'' \<and> method self \<noteq> ''default'')
       \<and> (e = ParameterRange \<longrightarrow> method self = ''fast''
            \<and> check_parameter (n_neighbors self) 1 (int (length X)) = Inl ParameterRange)"
proof -
  let ?s = "started X self"
  have arr: "check_array X = Inr X"
  proof (rule ccontr)
    assume "check_array X \<noteq> Inr X"
    then have "fit kn base X self = (Some InvalidArray, self)"
      by (rule fit_invalid_array)
    with assms show False by auto
  qed
  have d: "dispatch kn ?s = (Some e, snd (fit kn base X self))"
    using arr assms by (intro fit_error_dispatch) auto
  have s: "method ?s = method self" "n_train ?s = Some (length X)" "n_neighbors ?s = n_neighbors self"
    by (simp_all add: started_def)
  have main: "snd (fit kn base X self) = ?s
       \<and> (e = InvalidMethod \<longrightarrow> method self \<noteq> ''fast'' \<and> method self \<noteq> ''default'')
       \<and> (e = ParameterRange \<longrightarrow> method self = ''fast''
            \<and> check_parameter (n_neighbors self) 1 (int (length X)) = Inl ParameterRange)"
  proof (cases "method self = ''fast''")
    case True
    then have ff: "fit_fast kn ?s = (Some e, snd (fit kn base X self))"
      using d s by (simp add: dispatch_def)
    show ?thesis
    proof (cases "check_parameter (n_neighbors self) 1 (int (length X))")
      case (Inl e')
      then have "fit_fast kn ?s = (Some ParameterRange, ?s)"
        using s by (intro fit_fast_rejects) auto
      moreover have "e' = ParameterRange"
        using Inl by (simp add: check_parameter_def split: if_splits)
      ultimately show ?thesis using ff True Inl by simp
    next
      case (Inr b)
      have "e \<in> {AttributeError, IndexError, ShapeMismatch, ZeroDivisionError, IndexQueryError}"
        using ff s Inr by (intro fit_fast_error_kinds [of kn ?s e "length X" b]) auto
      with assms(2) show ?thesis by auto
    qed
  next
    case nf: False
    show ?thesis
    proof (cases "method self = ''default''")
      case True
      then have "fst (fit_default ?s) = Some e"
        using d s nf by (simp add: dispatch_def)
      then have "e \<in> {AttributeError, IndexError, ShapeMismatch, ZeroDivisionError}"
        by (rule fit_default_error_kinds)
      with assms(2) show ?thesis by auto
    next
      case False
      with nf d s show ?thesis by (auto simp: dispatch_def)
    qed
  qed
  then show ?thesis by (simp add: started_def)
qed

theorem fit_parameter_error_state_witness:
  "fst (fit brute_kneighbors no_labels [[0], [1]] (ABOD (1 / 10) 5 ''exhaustive'')) = Some InvalidMethod
   \<and> snd (fit brute_kneighbors no_labels [[0], [1]] (ABOD (1 / 10) 5 ''exhaustive''))
       = started [[0], [1]] (ABOD (1 / 10) 5 ''exhaustive'')
   \<and> fst (fit brute_kneighbors no_labels [[5], [6]] fitted3) = Some ParameterRange
   \<and> snd (fit brute_kneighbors no_labels [[5], [6]] fitted3) = started [[5], [6]] fitted3"
proof -
  have a: "fst (fit brute_kneighbors no_labels [[0], [1]] (ABOD (1 / 10) 5 ''exhaustive''))
             = Some InvalidMethod"
    by (simp add: run_defs)
  have b: "fst (fit brute_kneighbors no_labels [[5], [6]] fitted3) = Some ParameterRange"
    by (simp add: fitted3_value) (simp add: run_defs)
  show ?thesis
    using a b fit_parameter_error_state [OF a] fit_parameter_error_state [OF b] by simp
qed

lemma calculate_wocs_single: "calculate_wocs p X [j] = Inr NaN"
  by (simp add: calculate_wocs_def np_var_def)

lemma length_one_conv: "length r = Suc 0 \<longleftrightarrow> (\<exists>j. r = [j])"
  by (cases r) auto

text \<open>
  C3. In fast mode, on an array that \<^verbatim>\<open>check_array\<close> accepts, \<^verbatim>\<open>fit\<close> raises the
  parameter-range error exactly when \<open>k\<close> is outside \<open>[1, n - 1]\<close>. With \<open>k = 1\<close>, at least
  two points and an index that answers with one neighbour for each point, no pair is formed
  for any point, \<^verbatim>\<open>fit\<close> returns without an exception and every published score is nan.
\<close>

theorem fit_fast_range:
  assumes "check_array X = Inr X" and "method self = ''fast''"
  shows "(fst (fit kn base X self) = Some ParameterRange
            \<longleftrightarrow> \<not> (1 \<le> n_neighbors self \<and> n_neighbors self \<le> int (length X) - 1))
       \<and> (n_neighbors self = 1 \<and> 2 \<le> length X \<and> kn X 1 = Some ind_arr
            \<and> length ind_arr = length X \<and> (\<forall>r \<in> set ind_arr. length r = 1)
          \<longrightarrow> (\<forall>r \<in> set ind_arr. combinations2 r = [])
              \<and> fst (fit kn base X self) = None
              \<and> decision_scores (snd (fit kn base X self)) = Some (replicate (length X) NaN))"
proof
  let ?s = "started X self"
  have s: "method ?s = ''fast''" "n_train ?s = Some (length X)" "n_neighbors ?s = n_neighbors self"
    using assms(2) by (simp_all add: started_def)
  show "fst (fit kn base X self) = Some ParameterRange
          \<longleftrightarrow> \<not> (1 \<le> n_neighbors self \<and> n_neighbors self \<le> int (length X) - 1)"
  proof (cases "1 \<le> n_neighbors self \<and> n_neighbors self \<le> int (length X) - 1")
    case True
    then have chk: "check_parameter (n_neighbors self) 1 (int (length X)) = Inr True"
      by (simp add: check_parameter_def)
    have "fst (fit kn base X self) \<noteq> Some ParameterRange"
    proof
      assume raised: "fst (fit kn base X self) = Some ParameterRange"
      then have "dispatch kn ?s = (Some ParameterRange, snd (fit kn base X self))"
        using assms(1) by (intro fit_error_dispatch) auto
      then have "fst (fit_fast kn ?s) = Some ParameterRange"
        using s by (simp add: dispatch_def)
      then have "ParameterRange \<in> {AttributeError, IndexError, ShapeMismatch, ZeroDivisionError, IndexQueryError}"
        using s chk by (intro fit_fast_error_kinds [of kn ?s ParameterRange "length X" True]) auto
      then show False by simp
    qed
    with True show ?thesis by simp
  next
    case False
    then have "check_parameter (n_neighbors self) 1 (int (length X)) = Inl ParameterRange"
      by (simp add: check_parameter_def)
    then have "fit_fast kn ?s = (Some ParameterRange, ?s)"
      using s by (intro fit_fast_rejects) auto
    then have "fit kn base X self = (Some ParameterRange, ?s)"
      using assms(1) s by (simp add: fit_dispatch dispatch_def)
    with False show ?thesis by simp
  qed
next
  show "n_neighbors self = 1 \<and> 2 \<le> length X \<and> kn X 1 = Some ind_arr
            \<and> length ind_arr = length X \<and> (\<forall>r \<in> set ind_arr. length r = 1)
          \<longrightarrow> (\<forall>r \<in> set ind_arr. combinations2 r = [])
              \<and> fst (fit kn base X self) = None
              \<and> decision_scores (snd (fit kn base X self)) = Some (replicate (length X) NaN)"
  proof
    assume h: "n_neighbors self = 1 \<and> 2 \<le> length X \<and> kn X 1 = Some ind_arr
            \<and> length ind_arr = length X \<and> (\<forall>r \<in> set ind_arr. length r = 1)"
    have pairs: "\<forall>r \<in> set ind_arr. combinations2 r = []"
      using h by (auto simp: length_one_conv)
    have chk: "check_parameter (n_neighbors self) 1 (int (length X)) = Inr True"
      using h by (simp add: check_parameter_def)
    have raw: "\<forall>i < length X. raw_score (X_ind_fast ind_arr) X X i = Inr (replicate (length X) NaN ! i)"
    proof (intro allI impI)
      fix i assume i: "i < length X"
      then have "ind_arr ! i \<in> set ind_arr" using h by simp
      then obtain j where "ind_arr ! i = [j]"
        using h by (auto simp: length_one_conv)
      then show "raw_score (X_ind_fast ind_arr) X X i = Inr (replicate (length X) NaN ! i)"
        using i h by (simp add: raw_score_def X_ind_fast_def row_def calculate_wocs_single)
    qed
    have "fit kn base X self =
            (None, published base (replicate (length X) NaN) ((started X self)\<lparr>tree := Some X\<rparr>))"
    proof -
      have "\<exists>ia raw. kn X (n_neighbors self) = Some ia \<and> length raw = length X
                  \<and> (\<forall>i < length X. raw_score (X_ind_fast ia) X X i = Inr (raw ! i))
                  \<and> published base (replicate (length X) NaN) ((started X self)\<lparr>tree := Some X\<rparr>)
                      = published base raw ((started X self)\<lparr>tree := Some X\<rparr>)"
        using h raw
        by (intro exI [of _ ind_arr] exI [of _ "replicate (length X) NaN"]) simp
      then show ?thesis
        using assms chk by (simp add: fit_fast_iff)
    qed
    then show "(\<forall>r \<in> set ind_arr. combinations2 r = [])
              \<and> fst (fit kn base X self) = None
              \<and> decision_scores (snd (fit kn base X self)) = Some (replicate (length X) NaN)"
      using pairs by (simp add: published_def)
  qed
qed

theorem fit_fast_range_witness:
  "fst (fit brute_kneighbors no_labels [[0], [1], [3]] (ABOD (1 / 10) 1 ''fast'')) = None
   \<and> decision_scores (snd (fit brute_kneighbors no_labels [[0], [1], [3]] (ABOD (1 / 10) 1 ''fast'')))
       = Some [NaN, NaN, NaN]
   \<and> fst (fit brute_kneighbors no_labels [[0], [1], [3]] (ABOD (1 / 10) 3 ''fast'')) = Some ParameterRange"
proof -
  have a: "check_array [[0], [1], [3]] = Inr [[0], [1], [3]]"
    by (simp add: check_array_def)
  have k: "brute_kneighbors [[0], [1], [3]] 1 = Some [[1], [0], [1]]"
    by (simp add: brute_kneighbors_def nearest_def sumsq_def upt_rec_numeral)
  have m1: "method (ABOD (1 / 10) 1 ''fast'') = ''fast''" and m3: "method (ABOD (1 / 10) 3 ''fast'') = ''fast''"
    by (simp_all add: ABOD_def)
  show ?thesis
    using fit_fast_range [OF a m1, of brute_kneighbors no_labels "[[1], [0], [1]]"]
      fit_fast_range [OF a m3, of brute_kneighbors no_labels "[]"] k
    by (simp add: ABOD_def numeral_3_eq_3)
qed

section \<open>Properties of the scoring loop\<close>

lemma pred_loop_step:
  assumes "i < length Q" and "i < length ps" and "raw_score f Xt Q i = Inr v"
  shows "pred_loop f Xt Q (i # rest) ps = pred_loop f Xt Q rest (ps[i := v])"
  using assms by (auto simp: raw_score_def row_def split: sum.splits)

lemma pred_loop_success:
  assumes "\<forall>i \<in> set is. i < length Q \<and> i < length ps \<and> raw_score f Xt Q i = Inr (g i)"
  shows "pred_loop f Xt Q is ps = Inr (fold (\<lambda>i d. d[i := g i]) is ps)"
  using assms
proof (induction "is" arbitrary: ps)
  case Nil
  then show ?case by simp
next
  case (Cons i rest)
  have "pred_loop f Xt Q (i # rest) ps = pred_loop f Xt Q rest (ps[i := g i])"
    using Cons.prems by (intro pred_loop_step) auto
  moreover have "pred_loop f Xt Q rest (ps[i := g i])
                   = Inr (fold (\<lambda>i d. d[i := g i]) rest (ps[i := g i]))"
    using Cons.prems by (intro Cons.IH) auto
  ultimately show ?case by simp
qed

lemma pred_loop_Inr:
  assumes "pred_loop f Xt Q is ps = Inr out"
  shows "\<forall>i \<in> set is. i < length Q \<and> i < length ps \<and> (\<exists>v. raw_score f Xt Q i = Inr v)"
  using assms
proof (induction "is" arbitrary: ps)
  case Nil
  then show ?case by simp
next
  case (Cons i rest)
  from Cons.prems obtain v where
    i: "i < length Q" "i < length ps" "raw_score f Xt Q i = Inr v"
    by (auto simp: raw_score_def row_def split: sum.splits if_splits)
  have "pred_loop f Xt Q rest (ps[i := v]) = Inr out"
    using Cons.prems pred_loop_step [OF i] by simp
  then have "\<forall>j \<in> set rest. j < length Q \<and> j < length (ps[i := v]) \<and> (\<exists>v. raw_score f Xt Q j = Inr v)"
    by (rule Cons.IH)
  with i show ?case by auto
qed

lemma pred_loop_upt:
  assumes "length ps = length Q"
  shows "pred_loop f Xt Q [0..<length Q] ps = Inr out \<longleftrightarrow>
           length out = length Q \<and> (\<forall>i < length Q. raw_score f Xt Q i = Inr (out ! i))"
proof
  assume run: "pred_loop f Xt Q [0..<length Q] ps = Inr out"
  define g where "g i = projr (raw_score f Xt Q i)" for i
  have ok: "\<forall>i \<in> set [0..<length Q]. i < length Q \<and> i < length ps \<and> raw_score f Xt Q i = Inr (g i)"
    using pred_loop_Inr [OF run] by (auto simp: g_def)
  have "out = map g [0..<length Q]"
    using run pred_loop_success [OF ok] by (simp add: fold_update_upt [OF assms])
  with ok show "length out = length Q \<and> (\<forall>i < length Q. raw_score f Xt Q i = Inr (out ! i))"
    by simp
next
  assume out: "length out = length Q \<and> (\<forall>i < length Q. raw_score f Xt Q i = Inr (out ! i))"
  then have ok: "\<forall>i \<in> set [0..<length Q]. i < length Q \<and> i < length ps \<and> raw_score f Xt Q i = Inr (out ! i)"
    using assms by simp
  have "map ((!) out) [0..<length Q] = out"
    using out map_nth [of out] by simp
  then show "pred_loop f Xt Q [0..<length Q] ps = Inr out"
    using pred_loop_success [OF ok] by (simp add: fold_update_upt [OF assms])
qed

section \<open>The published scores\<close>

lemma fit_None_scores:
  assumes "fit kn base X self = (None, self')"
  shows "\<exists>raw. decision_scores self' = Some (map flip raw) \<and> length raw = length X
           \<and> (if method self = ''fast''
               then \<exists>ind_arr. kn X (n_neighbors self) = Some ind_arr
                      \<and> (\<forall>i < length X. raw_score (X_ind_fast ind_arr) X X i = Inr (raw ! i))
               else \<forall>i < length X. raw_score (X_ind_default (length X)) X X i = Inr (raw ! i))"
proof (cases "method self = ''fast''")
  case True
  with assms obtain ind_arr raw where "kn X (n_neighbors self) = Some ind_arr" "length raw = length X"
    "\<forall>i < length X. raw_score (X_ind_fast ind_arr) X X i = Inr (raw ! i)"
    "self' = published base raw ((started X self)\<lparr>tree := Some X\<rparr>)"
    by (auto simp: fit_fast_iff)
  with True show ?thesis
    by (intro exI [of _ raw]) (auto simp: published_def)
next
  case False
  have arr: "check_array X = Inr X"
  proof (rule ccontr)
    assume "check_array X \<noteq> Inr X"
    then have "fit kn base X self = (Some InvalidArray, self)"
      by (rule fit_invalid_array)
    with assms show False by simp
  qed
  have "method self = ''default''"
  proof (rule ccontr)
    assume "method self \<noteq> ''default''"
    with False have "dispatch kn (started X self) = (Some InvalidMethod, started X self)"
      by (simp add: dispatch_def started_def)
    with arr assms show False by (simp add: fit_dispatch)
  qed
  with assms obtain raw where "length raw = length X"
    "\<forall>i < length X. raw_score (X_ind_default (length X)) X X i = Inr (raw ! i)"
    "self' = published base raw (started X self)"
    by (auto simp: fit_default_iff)
  with False show ?thesis
    by (intro exI [of _ raw]) (auto simp: published_def)
qed

lemma decision_function_scores:
  assumes "decision_function tq d Q = Inr out"
  shows "\<exists>raw Xt. X_train d = Some Xt \<and> out = map flip raw \<and> length raw = length Q
           \<and> (if method d = ''fast''
               then \<exists>t ind_arr. tree d = Some t \<and> tq t Q (n_neighbors d) = Some ind_arr
                      \<and> (\<forall>i < length Q. raw_score (row ind_arr) Xt Q i = Inr (raw ! i))
               else \<exists>n. n_train d = Some n
                      \<and> (\<forall>i < length Q. raw_score (\<lambda>i. Inr [0..<n]) Xt Q i = Inr (raw ! i)))"
proof -
  from assms obtain Xt n where attrs: "X_train d = Some Xt" "n_train d = Some n"
    by (auto simp: decision_function_def split: if_splits)
  from assms obtain Q' where "check_array Q = Inr Q'"
    by (auto simp: decision_function_def split: if_splits sum.splits)
  then have arr: "check_array Q = Inr Q"
    using check_array_id by blast
  show ?thesis
  proof (cases "method d = ''fast''")
    case True
    with assms arr obtain raw where raw: "decision_function_fast tq d Q = Inr raw" "out = map flip raw"
      by (auto simp: decision_function_def split: if_splits sum.splits)
    then obtain t ind_arr where t: "tree d = Some t" "tq t Q (n_neighbors d) = Some ind_arr"
      by (auto simp: decision_function_fast_def split: option.splits)
    with raw attrs have "pred_loop (row ind_arr) Xt Q [0..<length Q] (replicate (length Q) (Num 0)) = Inr raw"
      by (simp add: decision_function_fast_def)
    then have "length raw = length Q \<and> (\<forall>i < length Q. raw_score (row ind_arr) Xt Q i = Inr (raw ! i))"
      by (simp add: pred_loop_upt)
    with True attrs raw t show ?thesis by auto
  next
    case False
    with assms arr obtain raw where raw: "decision_function_default d Q = Inr raw" "out = map flip raw"
      by (auto simp: decision_function_def split: if_splits sum.splits)
    with attrs have "pred_loop (\<lambda>i. Inr [0..<n]) Xt Q [0..<length Q] (replicate (length Q) (Num 0)) = Inr raw"
      by (simp add: decision_function_default_def)
    then have "length raw = length Q \<and> (\<forall>i < length Q. raw_score (\<lambda>i. Inr [0..<n]) Xt Q i = Inr (raw ! i))"
      by (simp add: pred_loop_upt)
    with False attrs raw show ?thesis by auto
  qed
qed

lemma fitted3_default_value:
  "fitted3_default =
     \<lparr>contamination = 1 / 10, n_neighbors = 2, method = ''default'',
      X_train = Some [[0], [1], [3]], n_train = Some 3,
      decision_scores = Some [Num 0, Num 0, Num 0],
      tree = None, threshold = Some NaN, labels = Some [0, 0, 0]\<rparr>"
  unfolding fitted3_default_def by (simp add: run_defs)

lemmas score_defs = decision_function_def decision_function_fast_def decision_function_default_def

lemma score_default_value:
  "decision_function brute_query fitted3_default [[- 1]] = Inr [Num (- (7 / 288))]"
  by (simp add: fitted3_default_value) (simp add: score_defs run_defs eval_nat_numeral)

lemma score_fast_value:
  "decision_function brute_query fitted3 [[- 1]] = Inr [Num 0]"
  by (simp add: fitted3_value) (simp add: score_defs run_defs)

section \<open>The index lists of fit\<close>




section \<open>Fast mode with the full neighbourhood\<close>

lemma set_combinations2:
  "ij \<in> set (combinations2 xs) \<Longrightarrow> fst ij \<in> set xs \<and> snd ij \<in> set xs"
  by (induction xs) auto

lemma combinations2_insert:
  "image_mset F (mset (combinations2 (ys @ x # zs))) =
     image_mset (\<lambda>y. F (y, x)) (mset ys) + image_mset (\<lambda>z. F (x, z)) (mset zs)
       + image_mset F (mset (combinations2 (ys @ zs)))"
proof (induction ys)
  case Nil
  then show ?case by (simp add: multiset.map_comp comp_def)
next
  case (Cons y ys)
  then show ?case by (simp add: multiset.map_comp comp_def ac_simps)
qed

lemma combinations2_mset:
  assumes "\<And>a b. F (a, b) = F (b, a)" and "mset xs = mset ys"
  shows "image_mset F (mset (combinations2 xs)) = image_mset F (mset (combinations2 ys))"
  using assms(2)
proof (induction xs arbitrary: ys)
  case Nil
  then show ?case by simp
next
  case (Cons x xs)
  then have "x \<in> set ys"
    by (metis list.set_intros(1) mset_eq_setD)
  then obtain ys1 ys2 where ys: "ys = ys1 @ x # ys2"
    by (auto dest: split_list)
  with Cons.prems have m: "mset xs = mset (ys1 @ ys2)" by simp
  have "image_mset F (mset (combinations2 (x # xs))) =
          image_mset (\<lambda>z. F (x, z)) (mset xs) + image_mset F (mset (combinations2 xs))"
    by (simp add: multiset.map_comp comp_def)
  also have "\<dots> = image_mset (\<lambda>z. F (x, z)) (mset (ys1 @ ys2))
                    + image_mset F (mset (combinations2 (ys1 @ ys2)))"
    using Cons.IH [OF m] m by simp
  also have "\<dots> = image_mset F (mset (combinations2 (ys1 @ x # ys2)))"
    by (simp add: combinations2_insert assms(1) [symmetric])
  finally show ?case using ys by simp
qed

lemma np_var_mset:
  assumes "mset xs = mset ys"
  shows "np_var xs = np_var ys"
proof -
  have len: "length xs = length ys"
    using assms by (rule mset_eq_length)
  have s: "sum_list (map g xs) = sum_list (map g ys)" for g :: "real \<Rightarrow> real"
  proof -
    have "sum_list (map g xs) = sum_mset (image_mset g (mset xs))"
      using sum_mset_sum_list [of "map g xs"] by simp
    also have "\<dots> = sum_mset (image_mset g (mset ys))"
      using assms by simp
    also have "\<dots> = sum_list (map g ys)"
      using sum_mset_sum_list [of "map g ys"] by simp
    finally show ?thesis .
  qed
  have sx: "sum_list xs = sum_list ys"
    using s [of "\<lambda>x. x"] by simp
  have e: "xs = [] \<longleftrightarrow> ys = []"
    using len by auto
  have "mean (map (\<lambda>x. \<bar>x - mean xs\<bar> ^ 2) xs) = mean (map (\<lambda>x. \<bar>x - mean ys\<bar> ^ 2) ys)"
    using s [of "\<lambda>x. \<bar>x - sum_list ys / real (length ys)\<bar> ^ 2"]
    by (simp add: mean_def sx len)
  then show ?thesis
    using e by (simp add: np_var_def)
qed

lemma wcos_val_commute: "wcos_val p a b = wcos_val p b a"
  by (simp add: wcos_val_def dotp_commute [of "map2 (-) a p"] mult.commute)

lemma collected_mset:
  assumes "mset xs = mset ys"
  shows "mset (collected p X (combinations2 xs)) = mset (collected p X (combinations2 ys))"
proof -
  define F where "F ij = (if retained p X ij then Some (wcos_val p (X ! fst ij) (X ! snd ij)) else None)"
    for ij :: "nat \<times> nat"
  have sym: "F (a, b) = F (b, a)" for a b
    by (auto simp: F_def retained_def wcos_val_commute)
  have c: "mset (collected p X pairs) = image_mset the (filter_mset (\<lambda>v. v \<noteq> None) (image_mset F (mset pairs)))"
    for pairs
    by (induction pairs) (auto simp: collected_def F_def)
  show ?thesis
    unfolding c using combinations2_mset [of F xs ys, OF sym assms] by simp
qed

lemma calculate_wocs_collected:
  assumes "\<forall>r \<in> set X. length r = length p" and "\<forall>j \<in> set inds. j < length X"
  shows "calculate_wocs p X inds = Inr (np_var (collected p X (combinations2 inds)))"
proof -
  have "\<forall>ij \<in> set (combinations2 inds). fst ij < length X \<and> snd ij < length X"
  proof
    fix ij assume "ij \<in> set (combinations2 inds)"
    then have "fst ij \<in> set inds \<and> snd ij \<in> set inds"
      by (rule set_combinations2)
    with assms(2) show "fst ij < length X \<and> snd ij < length X" by simp
  qed
  then have "wocs_loop p X (combinations2 inds) [] = Inr ([] @ collected p X (combinations2 inds))"
    by (rule wocs_loop_collected [OF assms(1)])
  then show ?thesis by (simp add: calculate_wocs_def)
qed

lemma calculate_wocs_mset:
  assumes "\<forall>r \<in> set X. length r = length p" and "\<forall>j \<in> set xs. j < length X"
    and "mset xs = mset ys"
  shows "calculate_wocs p X xs = calculate_wocs p X ys"
proof -
  have "set xs = set ys"
    using assms(3) by (rule mset_eq_setD)
  with assms(2) have "\<forall>j \<in> set ys. j < length X" by simp
  then have "calculate_wocs p X ys = Inr (np_var (collected p X (combinations2 ys)))"
    using assms(1) by (intro calculate_wocs_collected)
  moreover have "calculate_wocs p X xs = Inr (np_var (collected p X (combinations2 xs)))"
    using assms(1,2) by (intro calculate_wocs_collected)
  moreover have "np_var (collected p X (combinations2 xs)) = np_var (collected p X (combinations2 ys))"
    by (rule np_var_mset [OF collected_mset [OF assms(3)]])
  ultimately show ?thesis by simp
qed

lemma check_array_rows:
  assumes "check_array X = Inr X" and "i < length X"
  shows "\<forall>r \<in> set X. length r = length (X ! i)"
proof
  fix r assume r: "r \<in> set X"
  have ok: "X \<noteq> [] \<and> hd X \<noteq> [] \<and> (\<forall>r \<in> set X. length r = length (hd X))"
  proof (rule ccontr)
    assume "\<not> ?thesis"
    then have "check_array X = Inl InvalidArray"
      unfolding check_array_def by (rule if_not_P)
    with assms(1) show False by simp
  qed
  then have all: "\<forall>r \<in> set X. length r = length (hd X)" by (elim conjE)
  have "X ! i \<in> set X" using assms(2) by (rule nth_mem)
  with all have "length (X ! i) = length (hd X)" by (rule bspec)
  moreover from all r have "length r = length (hd X)" by (rule bspec)
  ultimately show "length r = length (X ! i)" by (rule ssubst)
qed

text \<open>
  C5, as stated, fails for the scoring of new points. On three training points, the detector
  fitted in fast mode with \<open>k = 2\<close> scores the new point \<open>[-1]\<close> from its two nearest
  training points only, one pair, and returns \<open>0\<close>; the detector fitted in default mode uses
  all three training points and returns \<open>-7/288\<close>.
\<close>

theorem fast_full_neighborhood_score_counterexample:
  "method fitted3 = ''fast'' \<and> n_neighbors fitted3 = int (length [[0], [1], [3::real]]) - 1
   \<and> method fitted3_default = ''default''
   \<and> X_train fitted3 = X_train fitted3_default
   \<and> decision_function brute_query fitted3 [[- 1]] = Inr [Num 0]
   \<and> decision_function brute_query fitted3_default [[- 1]] = Inr [Num (- (7 / 288))]
   \<and> decision_function brute_query fitted3 [[- 1]]
       \<noteq> decision_function brute_query fitted3_default [[- 1]]"
  by (simp add: score_fast_value score_default_value) (simp add: fitted3_value fitted3_default_value)

text \<open>
  C5, amended. On an array that \<^verbatim>\<open>check_array\<close> accepts, with \<open>k = n - 1\<close> accepted by
  \<^verbatim>\<open>check_parameter\<close> and an index that answers, for each training point, with the other
  \<open>n - 1\<close> points in some order, \<^verbatim>\<open>fit\<close> returns normally in fast mode and in default mode
  and publishes the same scores in both. (Equality is over the reals; nothing is claimed about
  the scoring of new points.)
\<close>

theorem fast_full_neighborhood_fit:
  assumes arr: "check_array X = Inr X"
    and f: "method d1 = ''fast''" and k: "n_neighbors d1 = int (length X) - 1"
    and chk: "check_parameter (n_neighbors d1) 1 (int (length X)) = Inr True"
    and d: "method d2 = ''default''"
    and q: "kn X (n_neighbors d1) = Some rows" and len: "length rows = length X"
    and perm: "\<forall>i < length X. mset (rows ! i) = mset (remove1 i [0..<length X])"
  shows "fst (fit kn base X d1) = None \<and> fst (fit kn base X d2) = None
       \<and> decision_scores (snd (fit kn base X d1)) = decision_scores (snd (fit kn base X d2))
       \<and> decision_scores (snd (fit kn base X d1)) \<noteq> None"
proof -
  define v where "v i = np_var (collected (X ! i) X (combinations2 (remove1 i [0..<length X])))"
    for i
  define raw where "raw = map v [0..<length X]"
  have raw_len: "length raw = length X"
    by (simp add: raw_def)
  have dflt: "calculate_wocs (X ! i) X (remove1 i [0..<length X]) = Inr (raw ! i)"
    and fast: "calculate_wocs (X ! i) X (rows ! i) = Inr (raw ! i)"
    if i: "i < length X" for i
  proof -
    have rect: "\<forall>r \<in> set X. length r = length (X ! i)"
      using arr i by (rule check_array_rows)
    have ran: "\<forall>j \<in> set (remove1 i [0..<length X]). j < length X"
      by (simp add: set_remove1_eq)
    have "calculate_wocs (X ! i) X (remove1 i [0..<length X]) = Inr (v i)"
      unfolding v_def using rect ran by (rule calculate_wocs_collected)
    then show a: "calculate_wocs (X ! i) X (remove1 i [0..<length X]) = Inr (raw ! i)"
      using i by (simp add: raw_def)
    have "mset (remove1 i [0..<length X]) = mset (rows ! i)"
      using perm i by simp
    with rect ran have "calculate_wocs (X ! i) X (remove1 i [0..<length X])
                         = calculate_wocs (X ! i) X (rows ! i)"
      by (rule calculate_wocs_mset)
    with a show "calculate_wocs (X ! i) X (rows ! i) = Inr (raw ! i)" by simp
  qed
  have rd: "\<forall>i < length X. raw_score (X_ind_default (length X)) X X i = Inr (raw ! i)"
    using dflt by (simp add: raw_score_def X_ind_default_def)
  have rf: "\<forall>i < length X. raw_score (X_ind_fast rows) X X i = Inr (raw ! i)"
    using fast len by (simp add: raw_score_def X_ind_fast_def row_def)
  have two: "fit kn base X d2 = (None, published base raw (started X d2))"
    using arr raw_len rd by (subst fit_default_iff [OF d]) blast
  have one: "fit kn base X d1 = (None, published base raw ((started X d1)\<lparr>tree := Some X\<rparr>))"
    using arr chk q raw_len rf by (subst fit_fast_iff [OF f]) blast
  show ?thesis
    by (simp add: one two published_def)
qed

lemma less_4_cases: "i < (4::nat) \<Longrightarrow> i = 0 \<or> i = 1 \<or> i = 2 \<or> i = 3"
  by arith

theorem fast_full_neighborhood_fit_witness:
  "fst (fit brute_kneighbors no_labels [[0, 0], [1, 0], [0, 1], [2, 2]] (ABOD (1 / 10) 3 ''fast'')) = None
   \<and> fst (fit brute_kneighbors no_labels [[0, 0], [1, 0], [0, 1], [2, 2]] (ABOD (1 / 10) 3 ''default'')) = None
   \<and> decision_scores (snd (fit brute_kneighbors no_labels [[0, 0], [1, 0], [0, 1], [2, 2]]
                               (ABOD (1 / 10) 3 ''fast'')))
       = decision_scores (snd (fit brute_kneighbors no_labels [[0, 0], [1, 0], [0, 1], [2, 2]]
                               (ABOD (1 / 10) 3 ''default'')))
   \<and> decision_scores (snd (fit brute_kneighbors no_labels [[0, 0], [1, 0], [0, 1], [2, 2]]
                               (ABOD (1 / 10) 3 ''fast''))) \<noteq> None"
proof (rule fast_full_neighborhood_fit [where rows = "[[1, 2, 3], [0, 2, 3], [0, 1, 3], [1, 2, 0]]"])
  show "check_array [[0, 0], [1, 0], [0, 1], [2, 2]] = Inr [[0, 0], [1, 0], [0, 1], [2, 2]]"
    by (simp add: check_array_def)
  show "method (ABOD (1 / 10) 3 ''fast'') = ''fast''"
    by (simp add: ABOD_def)
  show "n_neighbors (ABOD (1 / 10) 3 ''fast'') = int (length [[0, 0], [1, 0], [0, 1], [2, 2::real]]) - 1"
    by (simp add: ABOD_def)
  show "check_parameter (n_neighbors (ABOD (1 / 10) 3 ''fast'')) 1
          (int (length [[0, 0], [1, 0], [0, 1], [2, 2::real]])) = Inr True"
    by (simp add: ABOD_def check_parameter_def)
  show "method (ABOD (1 / 10) 3 ''default'') = ''default''"
    by (simp add: ABOD_def)
  show "brute_kneighbors [[0, 0], [1, 0], [0, 1], [2, 2]] (n_neighbors (ABOD (1 / 10) 3 ''fast''))
          = Some [[1, 2, 3], [0, 2, 3], [0, 1, 3], [1, 2, 0]]"
    by (simp add: ABOD_def brute_kneighbors_def nearest_def sumsq_def eval_nat_numeral)
  show "length [[1, 2, 3], [0, 2, 3], [0, 1, 3], [1, 2, 0::nat]]
          = length [[0, 0], [1, 0], [0, 1], [2, 2::real]]"
    by simp
  show "\<forall>i < length [[0, 0], [1, 0], [0, 1], [2, 2::real]].
          mset ([[1, 2, 3], [0, 2, 3], [0, 1, 3], [1, 2, 0]] ! i)
            = mset (remove1 i [0..<length [[0, 0], [1, 0], [0, 1], [2, 2::real]]])"
  proof (intro allI impI)
    fix i assume "i < length [[0, 0], [1, 0], [0, 1], [2, 2::real]]"
    then have "i = 0 \<or> i = 1 \<or> i = 2 \<or> i = 3"
      by (intro less_4_cases) simp
    then show "mset ([[1, 2, 3], [0, 2, 3], [0, 1, 3], [1, 2, 0]] ! i)
                 = mset (remove1 i [0..<length [[0, 0], [1, 0], [0, 1], [2, 2::real]]])"
      by (elim disjE) (simp_all add: eval_nat_numeral)
  qed
qed

section \<open>Fit and scoring return\<close>

lemma scores_exist:
  assumes "\<forall>i < length Q. (\<forall>r \<in> set Xt. length r = length (Q ! i))
                             \<and> (\<forall>j \<in> set (inds i). j < length Xt)"
  shows "\<exists>raw. length raw = length Q
           \<and> (\<forall>i < length Q. calculate_wocs (Q ! i) Xt (inds i) = Inr (raw ! i))"
proof -
  define v where "v i = np_var (collected (Q ! i) Xt (combinations2 (inds i)))" for i
  have "calculate_wocs (Q ! i) Xt (inds i) = Inr (map v [0..<length Q] ! i)" if "i < length Q" for i
  proof -
    from assms that have "(\<forall>r \<in> set Xt. length r = length (Q ! i))
                           \<and> (\<forall>j \<in> set (inds i). j < length Xt)"
      by blast
    then have "calculate_wocs (Q ! i) Xt (inds i) = Inr (v i)"
      unfolding v_def by (intro calculate_wocs_collected) (erule conjunct1, erule conjunct2)
    with that show ?thesis by simp
  qed
  then show ?thesis
    by (intro exI [of _ "map v [0..<length Q]"]) simp
qed

lemma fit_succeeds:
  assumes arr: "check_array X = Inr X"
    and mode: "method self = ''fast'' \<or> method self = ''default''"
    and idx: "method self = ''fast'' \<longrightarrow>
                check_parameter (n_neighbors self) 1 (int (length X)) = Inr True
                \<and> kn X (n_neighbors self) = Some rows \<and> length rows = length X
                \<and> (\<forall>r \<in> set rows. \<forall>j \<in> set r. j < length X)"
  shows "\<exists>raw. length raw = length X
           \<and> (\<forall>i < length X. calculate_wocs (X ! i) X
                  (if method self = ''fast'' then rows ! i else remove1 i [0..<length X])
                = Inr (raw ! i))
           \<and> fit kn base X self =
               (None, published base raw
                  (if method self = ''fast'' then (started X self)\<lparr>tree := Some X\<rparr>
                   else started X self))"
proof (cases "method self = ''fast''")
  case True
  with idx have chk: "check_parameter (n_neighbors self) 1 (int (length X)) = Inr True"
    and q: "kn X (n_neighbors self) = Some rows" and len: "length rows = length X"
    and ran: "\<forall>r \<in> set rows. \<forall>j \<in> set r. j < length X"
    by simp_all
  have "\<forall>i < length X. (\<forall>r \<in> set X. length r = length (X ! i))
                           \<and> (\<forall>j \<in> set (rows ! i). j < length X)"
  proof (intro allI impI conjI)
    fix i assume i: "i < length X"
    show "\<forall>r \<in> set X. length r = length (X ! i)"
      using arr i by (rule check_array_rows)
    have "rows ! i \<in> set rows"
      using i len by simp
    with ran show "\<forall>j \<in> set (rows ! i). j < length X"
      by (rule bspec)
  qed
  then obtain raw where raw: "length raw = length X"
    "\<forall>i < length X. calculate_wocs (X ! i) X (rows ! i) = Inr (raw ! i)"
    using scores_exist [of X X "\<lambda>i. rows ! i"] by blast
  have "\<forall>i < length X. raw_score (X_ind_fast rows) X X i = Inr (raw ! i)"
    using raw(2) len by (simp add: raw_score_def X_ind_fast_def row_def)
  then have "fit kn base X self = (None, published base raw ((started X self)\<lparr>tree := Some X\<rparr>))"
    using arr chk q raw(1) by (subst fit_fast_iff [OF True]) blast
  with True raw show ?thesis
    by (intro exI [of _ raw]) simp
next
  case False
  with mode have d: "method self = ''default''" by simp
  have "\<forall>i < length X. (\<forall>r \<in> set X. length r = length (X ! i))
                           \<and> (\<forall>j \<in> set (remove1 i [0..<length X]). j < length X)"
  proof (intro allI impI conjI)
    fix i assume i: "i < length X"
    show "\<forall>r \<in> set X. length r = length (X ! i)"
      using arr i by (rule check_array_rows)
    show "\<forall>j \<in> set (remove1 i [0..<length X]). j < length X"
      by (simp add: set_remove1_eq)
  qed
  then obtain raw where raw: "length raw = length X"
    "\<forall>i < length X. calculate_wocs (X ! i) X (remove1 i [0..<length X]) = Inr (raw ! i)"
    using scores_exist [of X X "\<lambda>i. remove1 i [0..<length X]"] by blast
  have "\<forall>i < length X. raw_score (X_ind_default (length X)) X X i = Inr (raw ! i)"
    using raw(2) by (simp add: raw_score_def X_ind_default_def)
  then have "fit kn base X self = (None, published base raw (started X self))"
    using arr raw(1) by (subst fit_default_iff [OF d]) blast
  with False raw show ?thesis
    by (intro exI [of _ raw]) simp
qed

lemma check_array_hd:
  assumes "check_array Q = Inr Q" and "i < length Q"
  shows "length (Q ! i) = length (hd Q)"
proof -
  have all: "\<forall>r \<in> set Q. length r = length (Q ! i)"
    using assms by (rule check_array_rows)
  have "hd Q \<in> set Q"
    using assms(2) by (cases Q) auto
  with all have "length (hd Q) = length (Q ! i)"
    by (rule bspec)
  then show ?thesis by (rule sym)
qed

lemma decision_function_succeeds:
  assumes fitted: "X_train d = Some Xt" "n_train d = Some (length Xt)" "decision_scores d \<noteq> None"
      "threshold d \<noteq> None" "labels d \<noteq> None"
    and arr: "check_array Q = Inr Q"
    and dim: "\<forall>r \<in> set Xt. length r = length (hd Q)"
    and idx: "method d = ''fast'' \<longrightarrow>
                tree d = Some t \<and> tq t Q (n_neighbors d) = Some qrows \<and> length qrows = length Q
                \<and> (\<forall>r \<in> set qrows. \<forall>j \<in> set r. j < length Xt)"
  shows "\<exists>new. length new = length Q
           \<and> (\<forall>i < length Q. calculate_wocs (Q ! i) Xt
                  (if method d = ''fast'' then qrows ! i else [0..<length Xt]) = Inr (new ! i))
           \<and> decision_function tq d Q = Inr (map flip new)"
proof -
  have rect: "\<forall>r \<in> set Xt. length r = length (Q ! i)" if "i < length Q" for i
  proof
    fix r assume "r \<in> set Xt"
    with dim have "length r = length (hd Q)"
      by (rule bspec)
    also have "\<dots> = length (Q ! i)"
      using check_array_hd [OF arr that] by (rule sym)
    finally show "length r = length (Q ! i)" .
  qed
  have gate: "decision_function tq d Q =
      (if method d = ''fast''
       then (case decision_function_fast tq d Q of Inl e \<Rightarrow> Inl e | Inr s \<Rightarrow> Inr (map flip s))
       else (case decision_function_default d Q of Inl e \<Rightarrow> Inl e | Inr s \<Rightarrow> Inr (map flip s)))"
    using fitted arr by (auto simp: decision_function_def)
  show ?thesis
  proof (cases "method d = ''fast''")
    case True
    with idx have t: "tree d = Some t" "tq t Q (n_neighbors d) = Some qrows"
      and len: "length qrows = length Q"
      and ran: "\<forall>r \<in> set qrows. \<forall>j \<in> set r. j < length Xt"
      by simp_all
    have "\<forall>i < length Q. (\<forall>r \<in> set Xt. length r = length (Q ! i))
                             \<and> (\<forall>j \<in> set (qrows ! i). j < length Xt)"
    proof (intro allI impI conjI)
      fix i assume i: "i < length Q"
      then show "\<forall>r \<in> set Xt. length r = length (Q ! i)"
        by (rule rect)
      have "qrows ! i \<in> set qrows"
        using i len by simp
      with ran show "\<forall>j \<in> set (qrows ! i). j < length Xt"
        by (rule bspec)
    qed
    then obtain new where new: "length new = length Q"
      "\<forall>i < length Q. calculate_wocs (Q ! i) Xt (qrows ! i) = Inr (new ! i)"
      using scores_exist [of Q Xt "\<lambda>i. qrows ! i"] by blast
    have "\<forall>i < length Q. raw_score (row qrows) Xt Q i = Inr (new ! i)"
      using new(2) len by (simp add: raw_score_def row_def)
    then have "pred_loop (row qrows) Xt Q [0..<length Q] (replicate (length Q) (Num 0)) = Inr new"
      using new(1) by (simp add: pred_loop_upt)
    then have "decision_function_fast tq d Q = Inr new"
      using t fitted(1) by (simp add: decision_function_fast_def)
    with True gate new show ?thesis
      by (intro exI [of _ new]) simp
  next
    case False
    have "\<forall>i < length Q. (\<forall>r \<in> set Xt. length r = length (Q ! i))
                             \<and> (\<forall>j \<in> set [0..<length Xt]. j < length Xt)"
    proof (intro allI impI conjI)
      fix i assume "i < length Q"
      then show "\<forall>r \<in> set Xt. length r = length (Q ! i)"
        by (rule rect)
      show "\<forall>j \<in> set [0..<length Xt]. j < length Xt"
        by simp
    qed
    then obtain new where new: "length new = length Q"
      "\<forall>i < length Q. calculate_wocs (Q ! i) Xt [0..<length Xt] = Inr (new ! i)"
      using scores_exist [of Q Xt "\<lambda>i. [0..<length Xt]"] by blast
    have "\<forall>i < length Q. raw_score (\<lambda>i. Inr [0..<length Xt]) Xt Q i = Inr (new ! i)"
      using new(2) by (simp add: raw_score_def)
    then have "pred_loop (\<lambda>i. Inr [0..<length Xt]) Xt Q [0..<length Q] (replicate (length Q) (Num 0))
                 = Inr new"
      using new(1) by (simp add: pred_loop_upt)
    then have "decision_function_default d Q = Inr new"
      using fitted(1,2) by (simp add: decision_function_default_def)
    with False gate new show ?thesis
      by (intro exI [of _ new]) simp
  qed
qed

lemma check_array_all_hd:
  assumes "check_array X = Inr X"
  shows "\<forall>r \<in> set X. length r = length (hd X)"
proof -
  have "X \<noteq> [] \<and> hd X \<noteq> [] \<and> (\<forall>r \<in> set X. length r = length (hd X))"
  proof (rule ccontr)
    assume "\<not> ?thesis"
    then have "check_array X = Inl InvalidArray"
      unfolding check_array_def by (rule if_not_P)
    with assms show False by simp
  qed
  then show ?thesis by (elim conjE)
qed

text \<open>
  C8. Every published score is the raw variance times \<open>-1\<close>. On a training array that
  \<^verbatim>\<open>check_array\<close> accepts, in either mode (in fast mode with \<open>k\<close> accepted and an index that
  answers with indices of training points), \<^verbatim>\<open>fit\<close> returns and the score array it leaves is
  the list of the results of \<^verbatim>\<open>_calculate_wocs\<close> for the training points, each on the index
  list of its mode, with \<open>flip\<close> applied to each entry. On new points of the same dimension
  \<^verbatim>\<open>decision_function\<close> of the fitted detector returns, and its result is the list of the
  results of \<^verbatim>\<open>_calculate_wocs\<close> for the new points with \<open>flip\<close> applied. \<open>flip\<close> negates a
  number and keeps nan, so of two raw variances the lower one is published as the higher
  score.
\<close>

theorem published_scores_negated:
  assumes "check_array X = Inr X"
    and "method self = ''fast'' \<or> method self = ''default''"
    and "method self = ''fast'' \<longrightarrow>
           check_parameter (n_neighbors self) 1 (int (length X)) = Inr True
           \<and> kn X (n_neighbors self) = Some rows \<and> length rows = length X
           \<and> (\<forall>r \<in> set rows. \<forall>j \<in> set r. j < length X)"
    and "check_array Q = Inr Q" and "length (hd Q) = length (hd X)"
    and "method self = ''fast'' \<longrightarrow>
           tq X Q (n_neighbors self) = Some qrows \<and> length qrows = length Q
           \<and> (\<forall>r \<in> set qrows. \<forall>j \<in> set r. j < length X)"
  shows "fst (fit kn base X self) = None
     \<and> (\<exists>raw. length raw = length X
          \<and> (\<forall>i < length X. calculate_wocs (X ! i) X
                 (if method self = ''fast'' then rows ! i else remove1 i [0..<length X])
               = Inr (raw ! i))
          \<and> decision_scores (snd (fit kn base X self)) = Some (map flip raw))
     \<and> (\<exists>new. length new = length Q
          \<and> (\<forall>i < length Q. calculate_wocs (Q ! i) X
                 (if method self = ''fast'' then qrows ! i else [0..<length X])
               = Inr (new ! i))
          \<and> decision_function tq (snd (fit kn base X self)) Q = Inr (map flip new))
     \<and> flip (Num r) = Num (- r) \<and> flip NaN = NaN
     \<and> (r < s \<longrightarrow> (\<exists>r' s'. flip (Num r) = Num r' \<and> flip (Num s) = Num s' \<and> s' < r'))"
proof -
  let ?s = "if method self = ''fast'' then (started X self)\<lparr>tree := Some X\<rparr> else started X self"
  from fit_succeeds [where kn = kn and base = base and rows = rows, OF assms(1,2,3)] obtain raw where raw: "length raw = length X"
    "\<forall>i < length X. calculate_wocs (X ! i) X
        (if method self = ''fast'' then rows ! i else remove1 i [0..<length X]) = Inr (raw ! i)"
    "fit kn base X self = (None, published base raw ?s)"
    by blast
  let ?d = "published base raw ?s"
  have d: "X_train ?d = Some X" "n_train ?d = Some (length X)" "decision_scores ?d \<noteq> None"
    "threshold ?d \<noteq> None" "labels ?d \<noteq> None" "method ?d = method self"
    "n_neighbors ?d = n_neighbors self"
    by (simp_all add: published_def started_def)
  have t: "method self = ''fast'' \<longrightarrow> tree ?d = Some X"
    by (simp add: published_def started_def)
  have dim: "\<forall>r \<in> set X. length r = length (hd Q)"
    using check_array_all_hd [OF assms(1)] unfolding assms(5) .
  have idx: "method ?d = ''fast'' \<longrightarrow>
               tree ?d = Some X \<and> tq X Q (n_neighbors ?d) = Some qrows \<and> length qrows = length Q
               \<and> (\<forall>r \<in> set qrows. \<forall>j \<in> set r. j < length X)"
    using assms(6) t unfolding d(6,7) by blast
  from decision_function_succeeds [where tq = tq and qrows = qrows, OF d(1-5) assms(4) dim idx] obtain new where
    new: "length new = length Q"
    "\<forall>i < length Q. calculate_wocs (Q ! i) X
        (if method ?d = ''fast'' then qrows ! i else [0..<length X]) = Inr (new ! i)"
    "decision_function tq ?d Q = Inr (map flip new)"
    by blast
  have one: "fst (fit kn base X self) = None"
    by (simp add: raw(3))
  have two: "\<exists>raw. length raw = length X
          \<and> (\<forall>i < length X. calculate_wocs (X ! i) X
                 (if method self = ''fast'' then rows ! i else remove1 i [0..<length X])
               = Inr (raw ! i))
          \<and> decision_scores (snd (fit kn base X self)) = Some (map flip raw)"
    using raw(1,2) by (intro exI [of _ raw]) (simp add: raw(3) published_def)
  have three: "\<exists>new. length new = length Q
          \<and> (\<forall>i < length Q. calculate_wocs (Q ! i) X
                 (if method self = ''fast'' then qrows ! i else [0..<length X])
               = Inr (new ! i))
          \<and> decision_function tq (snd (fit kn base X self)) Q = Inr (map flip new)"
    using new unfolding d(6) by (intro exI [of _ new]) (simp add: raw(3))
  show ?thesis
    using one two three by simp
qed


text \<open>The four points of the plane, fitted in fast mode with three neighbours.\<close>

lemma square4_check: "check_array square4 = Inr square4"
  by (simp add: square4_def check_array_def)

lemma square4_rows:
  "brute_kneighbors square4 3 = Some [[1, 2, 3], [0, 2, 3], [0, 1, 3], [1, 2, 0]]"
  unfolding square4_def by (simp add: brute_kneighbors_def nearest_def sumsq_def eval_nat_numeral)

lemma square4_qrows: "brute_query square4 [[1, 1]] 3 = Some [[1, 2, 0]]"
  unfolding square4_def by (simp add: brute_query_def nearest_def sumsq_def eval_nat_numeral)

lemma square4_fit:
  "fit brute_kneighbors no_labels square4 (ABOD (1 / 10) 3 ''fast'') =
     (None,
      \<lparr>contamination = 1 / 10, n_neighbors = 3, method = ''fast'',
       X_train = Some square4, n_train = Some 4,
       decision_scores = Some [Num (- (1 / 72)), Num (- (37 / 450)), Num (- (37 / 450)),
                               Num (- (1 / 45000))],
       tree = Some square4, threshold = Some NaN, labels = Some [0, 0, 0, 0]\<rparr>)"
  unfolding square4_def by (simp add: run_defs eval_nat_numeral power2_eq_square)

lemma square4_score:
  "decision_function brute_query
     (snd (fit brute_kneighbors no_labels square4 (ABOD (1 / 10) 3 ''fast''))) [[1, 1]]
   = Inr [Num (- (1 / 18))]"
  unfolding square4_fit by (simp add: square4_def score_defs run_defs eval_nat_numeral power2_eq_square)


theorem published_scores_negated_witness:
  "fst (fit brute_kneighbors no_labels square4 (ABOD (1 / 10) 3 ''fast'')) = None
   \<and> decision_scores (snd (fit brute_kneighbors no_labels square4 (ABOD (1 / 10) 3 ''fast'')))
       = Some [Num (- (1 / 72)), Num (- (37 / 450)), Num (- (37 / 450)), Num (- (1 / 45000))]
   \<and> decision_function brute_query
         (snd (fit brute_kneighbors no_labels square4 (ABOD (1 / 10) 3 ''fast''))) [[1, 1]]
       = Inr [Num (- (1 / 18))]
   \<and> (\<exists>raw. length raw = length square4
          \<and> (\<forall>i < length square4. calculate_wocs (square4 ! i) square4
                 (if method (ABOD (1 / 10) 3 ''fast'') = ''fast''
                  then [[1, 2, 3], [0, 2, 3], [0, 1, 3], [1, 2, 0]] ! i
                  else remove1 i [0..<length square4])
               = Inr (raw ! i))
          \<and> decision_scores (snd (fit brute_kneighbors no_labels square4 (ABOD (1 / 10) 3 ''fast'')))
              = Some (map flip raw))
   \<and> (\<exists>new. length new = length [[1, 1 :: real]]
          \<and> (\<forall>i < length [[1, 1 :: real]]. calculate_wocs ([[1, 1]] ! i) square4
                 (if method (ABOD (1 / 10) 3 ''fast'') = ''fast'' then [[1, 2, 0]] ! i
                  else [0..<length square4])
               = Inr (new ! i))
          \<and> decision_function brute_query
                (snd (fit brute_kneighbors no_labels square4 (ABOD (1 / 10) 3 ''fast''))) [[1, 1]]
              = Inr (map flip new))"
proof -
  have h2: "method (ABOD (1 / 10) 3 ''fast'') = ''fast'' \<or> method (ABOD (1 / 10) 3 ''fast'') = ''default''"
    by (simp add: ABOD_def)
  have k: "n_neighbors (ABOD (1 / 10) 3 ''fast'') = 3"
    by (simp add: ABOD_def)
  have h3: "method (ABOD (1 / 10) 3 ''fast'') = ''fast'' \<longrightarrow>
           check_parameter (n_neighbors (ABOD (1 / 10) 3 ''fast'')) 1 (int (length square4)) = Inr True
           \<and> brute_kneighbors square4 (n_neighbors (ABOD (1 / 10) 3 ''fast''))
               = Some [[1, 2, 3], [0, 2, 3], [0, 1, 3], [1, 2, 0]]
           \<and> length [[1, 2, 3], [0, 2, 3], [0, 1, 3], [1, 2, 0 :: nat]] = length square4
           \<and> (\<forall>r \<in> set [[1, 2, 3], [0, 2, 3], [0, 1, 3], [1, 2, 0]]. \<forall>j \<in> set r. j < length square4)"
    unfolding k square4_rows by (simp add: square4_def check_parameter_def)
  have h4: "check_array [[1, 1]] = Inr [[1, 1]]"
    by (simp add: check_array_def)
  have h5: "length (hd [[1, 1 :: real]]) = length (hd square4)"
    by (simp add: square4_def)
  have h6: "method (ABOD (1 / 10) 3 ''fast'') = ''fast'' \<longrightarrow>
           brute_query square4 [[1, 1]] (n_neighbors (ABOD (1 / 10) 3 ''fast'')) = Some [[1, 2, 0]]
           \<and> length [[1, 2, 0 :: nat]] = length [[1, 1 :: real]]
           \<and> (\<forall>r \<in> set [[1, 2, 0]]. \<forall>j \<in> set r. j < length square4)"
    unfolding k square4_qrows by (simp add: square4_def)
  note T = published_scores_negated [where kn = brute_kneighbors and tq = brute_query
      and base = no_labels and r = 1 and s = 2, OF square4_check h2 h3 h4 h5 h6]
  have v1: "decision_scores (snd (fit brute_kneighbors no_labels square4 (ABOD (1 / 10) 3 ''fast'')))
       = Some [Num (- (1 / 72)), Num (- (37 / 450)), Num (- (37 / 450)), Num (- (1 / 45000))]"
    by (simp add: square4_fit)
  show ?thesis
    by (rule conjI [OF T [THEN conjunct1] conjI [OF v1 conjI [OF square4_score
          conjI [OF T [THEN conjunct2, THEN conjunct1]
                    T [THEN conjunct2, THEN conjunct2, THEN conjunct1]]]]])
qed

section \<open>The neighbours of a training point\<close>




end
